theory Spec2Isabelle
  imports Complex_Main "HOL-Library.Sublist"
begin

section \<open>Music organizer: a shallow embedding of \<^verbatim>\<open>music_organizer.py\<close>\<close>

text \<open>
  The development follows the source file top to bottom: Python values (exceptions, strings,
  JSON), the file system and the external capabilities (audio codec, HTTP transport, random
  source), then the methods of \<^verbatim>\<open>AudioOrganizer\<close> in the order of the class, and
  finally the properties. Logging has no effect on any value the program computes and is
  left out; where a log call evaluates an expression that can raise, that expression is kept.
\<close>

subsection \<open>Exceptions\<close>

text \<open>
  Every exception the modelled operations can raise is a subclass of \<^verbatim>\<open>Exception\<close>.
  \<open>RequestTimeout\<close> stands for \<^verbatim>\<open>requests.exceptions.Timeout\<close>.
\<close>

datatype py_error =
    AttributeError
  | KeyError
  | TypeError
  | ValueError
  | FileNotFoundError
  | FileExistsError
  | IsADirectoryError
  | NotADirectoryError
  | ShutilError
  | JSONDecodeError
  | RequestTimeout
  | ConnectionError

subsection \<open>Strings\<close>

text \<open>
  A Python \<^verbatim>\<open>str\<close> is a \<^typ>\<open>string\<close>; one \<^typ>\<open>char\<close> stands for one
  code point, so \<^const>\<open>length\<close> is Python's \<^verbatim>\<open>len\<close>.
\<close>

definition str_replace :: "char \<Rightarrow> char \<Rightarrow> string \<Rightarrow> string" where
  \<comment> \<open>\<^verbatim>\<open>name.replace(old, new)\<close> for one-character \<^verbatim>\<open>old\<close> and \<^verbatim>\<open>new\<close>\<close>
  "str_replace old new name = map (\<lambda>c. if c = old then new else c) name"

definition str_strip_chars :: "string \<Rightarrow> string \<Rightarrow> string" where
  \<comment> \<open>\<^verbatim>\<open>name.strip(chars)\<close>\<close>
  "str_strip_chars chars name =
     rev (dropWhile (\<lambda>c. c \<in> set chars) (rev (dropWhile (\<lambda>c. c \<in> set chars) name)))"

definition is_space :: "char \<Rightarrow> bool" where
  \<comment> \<open>\<^verbatim>\<open>str.isspace\<close> on the code points below 256\<close>
  "is_space c = (of_char c \<in> {9, 10, 11, 12, 13, 28, 29, 30, 31, 32, 133, 160 :: nat})"

definition str_strip :: "string \<Rightarrow> string" where
  \<comment> \<open>\<^verbatim>\<open>name.strip()\<close>\<close>
  "str_strip name = rev (dropWhile is_space (rev (dropWhile is_space name)))"

definition lower_char :: "char \<Rightarrow> char" where
  "lower_char c =
     (case map_of (zip ''ABCDEFGHIJKLMNOPQRSTUVWXYZ'' ''abcdefghijklmnopqrstuvwxyz'') c of
        Some l \<Rightarrow> l
      | None \<Rightarrow> c)"

definition str_lower :: "string \<Rightarrow> string" where
  \<comment> \<open>\<^verbatim>\<open>s.lower()\<close> on ASCII letters\<close>
  "str_lower s = map lower_char s"

text \<open>
  \<^verbatim>\<open>re.sub(r'\([^)]*\)', '', name)\<close> and \<^verbatim>\<open>re.sub(r'\[[^\]]*\]', '', name)\<close>:
  the pattern is an opening delimiter \<open>l\<close>, any run of characters other than the closing
  delimiter \<open>r\<close>, and \<open>r\<close>. Scanning from the left, a match starts at an \<open>l\<close> exactly when
  an \<open>r\<close> occurs later, and it ends at the first such \<open>r\<close>; the scan resumes behind the
  match. Where no match starts the character is kept.
\<close>

function re_sub_group :: "char \<Rightarrow> char \<Rightarrow> string \<Rightarrow> string" where
  "re_sub_group l r [] = []"
| "re_sub_group l r (c # cs) =
     (if c = l \<and> r \<in> set cs
      then re_sub_group l r (tl (dropWhile (\<lambda>x. x \<noteq> r) cs))
      else c # re_sub_group l r cs)"
  by pat_completeness auto
termination
proof (relation "measure (\<lambda>(l, r, s). length s)", goal_cases)
  case 1
  show ?case by simp
next
  case (2 l r c cs)
  have "length (tl (dropWhile (\<lambda>x. x \<noteq> r) cs)) \<le> length cs"
    using length_dropWhile_le [of "\<lambda>x. x \<noteq> r" cs] by simp
  then show ?case by simp
next
  case (3 l r c cs)
  show ?case by simp
qed

subsection \<open>\<^verbatim>\<open>sanitize_filename\<close>\<close>

definition invalid_chars :: string where
  \<comment> \<open>\<^verbatim>\<open>'<>:"/\\|?*'\<close>\<close>
  "invalid_chars =
     [CHR ''<'', CHR ''>'', CHR '':'', CHR 0x22, CHR ''/'', CHR 0x5C, CHR ''|'', CHR ''?'', CHR ''*'']"

definition sanitize_filename :: "string \<Rightarrow> string" where
  "sanitize_filename name0 =
     (let name1 = fold (\<lambda>char name. str_replace char CHR ''_'' name) invalid_chars name0;
          name2 = re_sub_group CHR ''('' CHR '')'' name1;
          name3 = re_sub_group CHR ''['' CHR '']'' name2;
          name4 = str_strip_chars ''. '' name3;
          name5 = (if length name4 > 100 then take 100 name4 else name4)
      in if name5 = [] then ''Unknown'' else name5)"

subsection \<open>JSON values\<close>

text \<open>
  What \<^verbatim>\<open>response.json()\<close> returns. A dictionary is an association list read with
  \<^const>\<open>map_of\<close>. Numbers are rationals: the program only tests them for truth and
  never computes with them.
\<close>

datatype json =
    JNull
  | JBool bool
  | JNum rat
  | JStr string
  | JList "json list"
  | JDict "(string \<times> json) list"

fun truthy :: "json \<Rightarrow> bool" where
  "truthy JNull = False"
| "truthy (JBool b) = b"
| "truthy (JNum n) = (n \<noteq> 0)"
| "truthy (JStr s) = (s \<noteq> [])"
| "truthy (JList xs) = (xs \<noteq> [])"
| "truthy (JDict kvs) = (kvs \<noteq> [])"

fun dict_get :: "json \<Rightarrow> string \<Rightarrow> json \<Rightarrow> py_error + json" where
  \<comment> \<open>\<^verbatim>\<open>d.get(key, default)\<close>; only a dictionary has the method\<close>
  "dict_get (JDict kvs) k dflt = Inr (case map_of kvs k of Some v \<Rightarrow> v | None \<Rightarrow> dflt)"
| "dict_get _ k dflt = Inl AttributeError"

fun dict_item :: "json \<Rightarrow> string \<Rightarrow> py_error + json" where
  \<comment> \<open>\<^verbatim>\<open>d[key]\<close> with a string key\<close>
  "dict_item (JDict kvs) k = (case map_of kvs k of Some v \<Rightarrow> Inr v | None \<Rightarrow> Inl KeyError)"
| "dict_item _ k = Inl TypeError"

fun dict_contains :: "json \<Rightarrow> string \<Rightarrow> bool" where
  \<comment> \<open>\<^verbatim>\<open>key in d\<close>, used on a dictionary only\<close>
  "dict_contains (JDict kvs) k = (map_of kvs k \<noteq> None)"
| "dict_contains _ k = False"

subsection \<open>Paths\<close>

text \<open>
  A \<^verbatim>\<open>pathlib.Path\<close> is the list of its components; \<^verbatim>\<open>p / name\<close> appends one
  component when \<^verbatim>\<open>name\<close> holds no separator.
\<close>

type_synonym path = "string list"

definition path_name :: "path \<Rightarrow> string" where
  "path_name p = (if p = [] then [] else last p)"

definition str_rfind :: "char \<Rightarrow> string \<Rightarrow> int" where
  \<comment> \<open>\<^verbatim>\<open>s.rfind(c)\<close>: the last index of \<open>c\<close>, or \<open>-1\<close>\<close>
  "str_rfind c s =
     (if c \<in> set s then int (length s) - 1 - int (length (takeWhile (\<lambda>x. x \<noteq> c) (rev s)))
      else - 1)"

definition path_suffix :: "path \<Rightarrow> string" where
  \<comment> \<open>\<^verbatim>\<open>PurePath.suffix\<close>\<close>
  "path_suffix p =
     (let name = path_name p; i = str_rfind CHR ''.'' name
      in if 0 < i \<and> i < int (length name) - 1 then drop (nat i) name else [])"

subsection \<open>The file system\<close>

text \<open>
  The library tree is a map from paths to nodes; the root \<open>[]\<close> is a directory. The
  temporary directory is a separate list of named files, so that a fresh name can be
  computed. \<open>sleeps\<close> records every \<^verbatim>\<open>time.sleep\<close>, \<open>requests\<close> counts the HTTP
  requests sent and \<open>draws\<close> the random numbers drawn.
\<close>

type_synonym bytes = string

datatype node = File bytes | Dir

record world =
  files :: "path \<rightharpoonup> node"
  tmp :: "(nat \<times> bytes) list"
  sleeps :: "rat list"
  requests :: nat
  draws :: nat

definition path_exists :: "world \<Rightarrow> path \<Rightarrow> bool" where
  "path_exists w p = (files w p \<noteq> None)"

definition is_file :: "world \<Rightarrow> path \<Rightarrow> bool" where
  "is_file w p = (case files w p of Some (File b) \<Rightarrow> True | _ \<Rightarrow> False)"

definition is_dir :: "world \<Rightarrow> path \<Rightarrow> bool" where
  "is_dir w p = (p = [] \<or> files w p = Some Dir)"

definition read_file :: "world \<Rightarrow> path \<Rightarrow> py_error + bytes" where
  \<comment> \<open>\<^verbatim>\<open>open(path, "rb")\<close> and reading to the end\<close>
  "read_file w p =
     (case files w p of
        None \<Rightarrow> Inl FileNotFoundError
      | Some Dir \<Rightarrow> Inl IsADirectoryError
      | Some (File b) \<Rightarrow> Inr b)"

definition os_remove :: "world \<Rightarrow> path \<Rightarrow> py_error + world" where
  "os_remove w p =
     (case files w p of
        None \<Rightarrow> Inl FileNotFoundError
      | Some Dir \<Rightarrow> Inl IsADirectoryError
      | Some (File b) \<Rightarrow> Inr (w\<lparr>files := (files w)(p := None)\<rparr>))"

definition getsize :: "world \<Rightarrow> path \<Rightarrow> py_error + nat" where
  \<comment> \<open>\<^verbatim>\<open>os.path.getsize\<close>; \<^verbatim>\<open>move_file\<close> reaches it for regular files only, the
      size of a directory is platform-specific and taken as 0\<close>
  "getsize w p =
     (case files w p of
        None \<Rightarrow> Inl FileNotFoundError
      | Some Dir \<Rightarrow> Inr 0
      | Some (File b) \<Rightarrow> Inr (length b))"

definition shutil_move :: "world \<Rightarrow> path \<Rightarrow> path \<Rightarrow> py_error + world" where
  \<comment> \<open>\<^verbatim>\<open>shutil.move\<close> of a regular file: into \<open>dst\<close> when that is a directory,
      else a rename, which needs the parent directory and replaces a file at \<open>dst\<close>\<close>
  "shutil_move w src dst =
     (case files w src of
        None \<Rightarrow> Inl FileNotFoundError
      | Some Dir \<Rightarrow> Inl IsADirectoryError
      | Some (File b) \<Rightarrow>
          if src = dst then Inr w
          else if files w dst = Some Dir then
            (let real_dst = dst @ [path_name src]
             in if path_exists w real_dst then Inl ShutilError
                else Inr (w\<lparr>files := (files w)(src := None, real_dst \<mapsto> File b)\<rparr>))
          else if \<not> is_dir w (butlast dst) then Inl FileNotFoundError
          else Inr (w\<lparr>files := (files w)(src := None, dst \<mapsto> File b)\<rparr>))"

fun mkdirs :: "path list \<Rightarrow> (path \<rightharpoonup> node) \<Rightarrow> py_error + (path \<rightharpoonup> node)" where
  "mkdirs [] f = Inr f"
| "mkdirs (q # qs) f =
     (case f q of
        Some (File b) \<Rightarrow> Inl (if qs = [] then FileExistsError else NotADirectoryError)
      | _ \<Rightarrow> mkdirs qs (f(q \<mapsto> Dir)))"

definition mkdir_parents :: "world \<Rightarrow> path \<Rightarrow> py_error + world" where
  \<comment> \<open>\<^verbatim>\<open>p.mkdir(parents=True, exist_ok=True)\<close>: every non-root prefix of \<open>p\<close> becomes
      a directory unless one of them is a regular file\<close>
  "mkdir_parents w p =
     (case mkdirs (tl (prefixes p)) (files w) of
        Inl e \<Rightarrow> Inl e
      | Inr f \<Rightarrow> Inr (w\<lparr>files := f\<rparr>))"

definition tmp_fresh :: "(nat \<times> bytes) list \<Rightarrow> nat" where
  \<comment> \<open>a name no temporary file has\<close>
  "tmp_fresh t = Suc (fold max (map fst t) 0)"

definition tmp_read :: "(nat \<times> bytes) list \<Rightarrow> nat \<Rightarrow> py_error + bytes" where
  "tmp_read t k = (case map_of t k of None \<Rightarrow> Inl FileNotFoundError | Some b \<Rightarrow> Inr b)"

definition tmp_write :: "nat \<Rightarrow> bytes \<Rightarrow> (nat \<times> bytes) list \<Rightarrow> (nat \<times> bytes) list" where
  "tmp_write k b t = (k, b) # filter (\<lambda>kv. fst kv \<noteq> k) t"

definition tmp_unlink :: "nat \<Rightarrow> (nat \<times> bytes) list \<Rightarrow> py_error + (nat \<times> bytes) list" where
  "tmp_unlink k t =
     (if map_of t k = None then Inl FileNotFoundError
      else Inr (filter (\<lambda>kv. fst kv \<noteq> k) t))"

subsection \<open>Run statistics, manifest and organizer state\<close>

text \<open>The counters of \<^verbatim>\<open>ProcessingStats\<close> start at 0 and are only ever incremented.\<close>

record processing_stats =
  total :: nat
  success :: nat
  failed :: nat
  skipped :: nat
  duplicates :: nat

record processed_entry =
  original_path :: path
  target_path :: path
  entry_artist :: json
  entry_title :: json
  entry_album :: json

record results =
  results_stats :: processing_stats
  results_processed_files :: "processed_entry list"
  results_failed_files :: "path list"

record organizer =
  api_token :: string
  input_folder :: path
  output_folder :: path
  dry_run :: bool
  clip_duration :: int
  processed_files :: "processed_entry list"
  failed_files :: "path list"
  file_hashes :: "string \<rightharpoonup> path"

definition supported_formats :: "string set" where
  "supported_formats = {''.mp3'', ''.wav'', ''.flac'', ''.m4a'', ''.aac'', ''.ogg'', ''.wma''}"

subsection \<open>External capabilities\<close>

text \<open>
  The audio library, the HTTP transport, the random source, the hash and the JSON
  serialiser are not part of the program; they are parameters.
  \<^item> \<open>md5_hexdigest\<close>: the digest of a byte string (the chunked reading of
    \<^verbatim>\<open>get_file_hash\<close> feeds the whole content);
  \<^item> \<open>from_file\<close>: \<^verbatim>\<open>AudioSegment.from_file\<close> on a file with this name and this
    content, giving \<^verbatim>\<open>len(audio)\<close> in milliseconds, or \<open>None\<close> when it raises;
  \<^item> \<open>export_mp3\<close>: \<^verbatim>\<open>clip.export(name, format="mp3", bitrate="128k")\<close> for a clip of
    that audio, giving the bytes written, or \<open>None\<close> when it raises;
  \<^item> \<open>http_post\<close>: the outcome of the \<open>n\<close>-th request of the run, given the token and
    the uploaded bytes;
  \<^item> \<open>random_source\<close>: the \<open>n\<close>-th number drawn;
  \<^item> \<open>json_dump\<close>: the text \<^verbatim>\<open>json.dump\<close> writes.
\<close>

datatype clip = FullTrack | Window int int

datatype http_outcome =
    Response int "json option"
      \<comment> \<open>status code, and the parsed body or \<open>None\<close> when \<^verbatim>\<open>response.json()\<close> raises\<close>
  | TimedOut
  | TransportFailure

record env =
  md5_hexdigest :: "bytes \<Rightarrow> string"
  from_file :: "path \<Rightarrow> bytes \<Rightarrow> nat option"
  export_mp3 :: "path \<Rightarrow> bytes \<Rightarrow> clip \<Rightarrow> bytes option"
  http_post :: "nat \<Rightarrow> string \<Rightarrow> bytes \<Rightarrow> http_outcome"
  random_source :: "nat \<Rightarrow> nat"
  json_dump :: "results \<Rightarrow> bytes"

definition randint :: "env \<Rightarrow> world \<Rightarrow> int \<Rightarrow> int \<Rightarrow> (py_error + int) \<times> world" where
  \<comment> \<open>\<^verbatim>\<open>random.randint(a, b)\<close>: some \<open>n\<close> with \<open>a \<le> n \<le> b\<close>, \<^verbatim>\<open>ValueError\<close> on an
      empty range\<close>
  "randint env w a b =
     (if b < a then (Inl ValueError, w)
      else (Inr (a + int (random_source env (draws w) mod nat (b - a + 1))),
            w\<lparr>draws := Suc (draws w)\<rparr>))"

subsection \<open>Multiplying by a float constant\<close>

text \<open>
  \<^verbatim>\<open>int(total_duration * 0.15)\<close> multiplies in IEEE double precision and truncates.
  The double nearest to 0.15 is \<open>5404319552844595 / 2^55\<close>, the one nearest to 0.85 is
  \<open>7656119366529843 / 2^53\<close>. For a natural \<open>n < 2^53\<close> (exactly a double) and a double
  \<open>m / 2^k\<close>, the product is \<open>n * m / 2^k\<close> rounded to 53 significant bits, ties to even.
\<close>

fun bit_length :: "nat \<Rightarrow> nat" where
  "bit_length n = (if n = 0 then 0 else Suc (bit_length (n div 2)))"

declare bit_length.simps [simp del]

definition round_to_53_bits :: "nat \<Rightarrow> nat" where
  "round_to_53_bits a =
     (let e = bit_length a - 53
      in if e = 0 then a
         else (let q = a div 2 ^ e; r = a mod 2 ^ e; h = 2 ^ (e - 1)
               in (if h < r \<or> (r = h \<and> odd q) then q + 1 else q) * 2 ^ e))"

definition int_of_product :: "nat \<Rightarrow> nat \<Rightarrow> nat \<Rightarrow> int" where
  \<comment> \<open>\<^verbatim>\<open>int(n * c)\<close> for the double \<open>c = m / 2^k\<close>\<close>
  "int_of_product n m k = int (round_to_53_bits (n * m) div 2 ^ k)"

definition times_0_15 :: "nat \<Rightarrow> int" where
  "times_0_15 n = int_of_product n 5404319552844595 55"

definition times_0_85 :: "nat \<Rightarrow> int" where
  "times_0_85 n = int_of_product n 7656119366529843 53"

subsection \<open>\<^verbatim>\<open>get_file_hash\<close>, \<^verbatim>\<open>get_audio_files\<close>, \<^verbatim>\<open>validate_audio_file\<close>\<close>

definition get_file_hash :: "env \<Rightarrow> world \<Rightarrow> path \<Rightarrow> py_error + string" where
  "get_file_hash env w file_path =
     (case read_file w file_path of
        Inl e \<Rightarrow> Inl e
      | Inr b \<Rightarrow> Inr (md5_hexdigest env b))"

definition get_audio_files :: "world \<Rightarrow> path list \<Rightarrow> path list" where
  \<comment> \<open>\<open>listing\<close> is what \<^verbatim>\<open>input_folder.rglob('*')\<close> yields, in its order\<close>
  "get_audio_files w listing =
     filter (\<lambda>file_path. is_file w file_path
                \<and> str_lower (path_suffix file_path) \<in> supported_formats) listing"

definition validate_audio_file :: "env \<Rightarrow> world \<Rightarrow> path \<Rightarrow> bool" where
  "validate_audio_file env w file_path =
     (case read_file w file_path of
        Inl e \<Rightarrow> False
      | Inr b \<Rightarrow>
          (case from_file env file_path b of
             None \<Rightarrow> False
           | Some audio_len \<Rightarrow> if audio_len < 10000 then False else True))"

subsection \<open>\<^verbatim>\<open>create_random_clip\<close>\<close>

definition pick_clip :: "env \<Rightarrow> world \<Rightarrow> nat \<Rightarrow> int \<Rightarrow> (py_error + clip) \<times> world" where
  \<comment> \<open>the choice of the clip, from \<^verbatim>\<open>total_duration = len(audio)\<close> to
      \<^verbatim>\<open>clip = audio[clip_start:clip_end]\<close>\<close>
  "pick_clip env w audio_len duration =
     (let total_duration = int audio_len
      in if total_duration < duration * 1000 then (Inr FullTrack, w)
         else
           (let safe_start = times_0_15 audio_len;
                safe_end = times_0_85 audio_len
            in case (if safe_end - safe_start < duration * 1000
                     then (let middle = total_duration div 2
                           in (Inr (max 0 (middle - duration * 500)), w))
                     else (let max_start = safe_end - duration * 1000
                           in randint env w safe_start max_start)) of
                 (Inl e, w1) \<Rightarrow> (Inl e, w1)
               | (Inr clip_start, w1) \<Rightarrow>
                   (let clip_end = clip_start + duration * 1000
                    in (Inr (Window clip_start clip_end), w1))))"

definition create_random_clip :: "env \<Rightarrow> world \<Rightarrow> path \<Rightarrow> int \<Rightarrow> nat option \<times> world" where
  \<comment> \<open>the result is the name of the temporary file; every exception gives \<open>None\<close>\<close>
  "create_random_clip env w audio_path duration =
     (case read_file w audio_path of
        Inl e \<Rightarrow> (None, w)
      | Inr b \<Rightarrow>
          (case from_file env audio_path b of
             None \<Rightarrow> (None, w)
           | Some audio_len \<Rightarrow>
               (case pick_clip env w audio_len duration of
                  (Inl e, w1) \<Rightarrow> (None, w1)
                | (Inr clip, w1) \<Rightarrow>
                    (let temp_file = tmp_fresh (tmp w1);
                         w2 = w1\<lparr>tmp := (temp_file, []) # tmp w1\<rparr>
                     in case export_mp3 env audio_path b clip of
                          None \<Rightarrow> (None, w2)
                        | Some data \<Rightarrow>
                            (Some temp_file, w2\<lparr>tmp := tmp_write temp_file data (tmp w2)\<rparr>)))))"

subsection \<open>\<^verbatim>\<open>identify_song\<close>\<close>

text \<open>
  One pass through the loop body is \<open>attempt_try\<close> (the \<^verbatim>\<open>try\<close> block) followed by
  \<open>attempt_step\<close> (the two \<^verbatim>\<open>except\<close> clauses). A pass returns from the function,
  goes on with the next attempt, or lets an exception escape.
\<close>

datatype 'a control = Return 'a | Continue | Raise py_error

definition time_sleep :: "rat \<Rightarrow> world \<Rightarrow> world" where
  "time_sleep secs w = w\<lparr>sleeps := sleeps w @ [secs]\<rparr>"

definition attempt_try ::
  "env \<Rightarrow> organizer \<Rightarrow> nat \<Rightarrow> nat \<Rightarrow> world \<Rightarrow> json option control \<times> world" where
  "attempt_try env org clip_path attempt w =
     (case tmp_read (tmp w) clip_path of
        Inl e \<Rightarrow> (Raise e, w)
      | Inr audio_file \<Rightarrow>
          (let w1 = w\<lparr>requests := Suc (requests w)\<rparr>
           in case http_post env (requests w) (api_token org) audio_file of
                TimedOut \<Rightarrow> (Raise RequestTimeout, w1)
              | TransportFailure \<Rightarrow> (Raise ConnectionError, w1)
              | Response status_code body \<Rightarrow>
                  if status_code = 200 then
                    (case body of
                       None \<Rightarrow> (Raise JSONDecodeError, w1)
                     | Some result \<Rightarrow>
                         (case dict_get result ''status'' JNull of
                            Inl e \<Rightarrow> (Raise e, w1)
                          | Inr status \<Rightarrow>
                              if status = JStr ''success'' then
                                (case dict_get result ''result'' JNull of
                                   Inl e \<Rightarrow> (Raise e, w1)
                                 | Inr payload \<Rightarrow>
                                     if truthy payload then
                                       (case dict_item result ''result'' of
                                          Inl e \<Rightarrow> (Raise e, w1)
                                        | Inr v \<Rightarrow> (Return (Some v), w1))
                                     else (Return None, w1))
                              else (Return None, w1)))
                  else if status_code = 901 then
                    (let wait_time = 2 ^ attempt
                     in (Continue, time_sleep wait_time w1))
                  else if status_code = 900 then (Return None, w1)
                  else if status_code = 700 then (Return None, w1)
                  else if status_code = 500 then (Return None, w1)
                  else if status_code = 400 then (Return None, w1)
                  else if status_code = 300 then (Return None, w1)
                  else (Return None, w1)))"

definition attempt_step ::
  "env \<Rightarrow> organizer \<Rightarrow> nat \<Rightarrow> int \<Rightarrow> nat \<Rightarrow> world \<Rightarrow> json option control \<times> world" where
  "attempt_step env org clip_path retries attempt w =
     (case attempt_try env org clip_path attempt w of
        (Raise e, w1) \<Rightarrow>
          if e = RequestTimeout then
            (if int attempt < retries - 1 then (Continue, time_sleep (2 ^ attempt) w1)
             else (Continue, w1))
          else (Return None, w1)
      | r \<Rightarrow> r)"

fun identify_attempts ::
  "env \<Rightarrow> organizer \<Rightarrow> nat \<Rightarrow> int \<Rightarrow> nat list \<Rightarrow> world \<Rightarrow> (py_error + json option) \<times> world"
  where
  "identify_attempts env org clip_path retries [] w = (Inr None, w)"
| "identify_attempts env org clip_path retries (attempt # rest) w =
     (case attempt_step env org clip_path retries attempt w of
        (Return r, w1) \<Rightarrow> (Inr r, w1)
      | (Continue, w1) \<Rightarrow> identify_attempts env org clip_path retries rest w1
      | (Raise e, w1) \<Rightarrow> (Inl e, w1))"

definition identify_song ::
  "env \<Rightarrow> organizer \<Rightarrow> nat \<Rightarrow> int \<Rightarrow> world \<Rightarrow> (py_error + json option) \<times> world" where
  \<comment> \<open>\<^verbatim>\<open>for attempt in range(retries)\<close>\<close>
  "identify_song env org clip_path retries w =
     identify_attempts env org clip_path retries [0..<nat retries] w"

definition default_retries :: int where
  "default_retries = 3"

subsection \<open>\<^verbatim>\<open>create_folder_structure\<close>\<close>

definition py_sanitize :: "json \<Rightarrow> py_error + string" where
  \<comment> \<open>\<^verbatim>\<open>self.sanitize_filename(v)\<close>: only a string has \<^verbatim>\<open>replace\<close>\<close>
  "py_sanitize v = (case v of JStr name \<Rightarrow> Inr (sanitize_filename name) | _ \<Rightarrow> Inl AttributeError)"

definition apple_music_album :: "json \<Rightarrow> py_error + json" where
  \<comment> \<open>\<^verbatim>\<open>song_info['apple_music'].get('albumName')\<close>\<close>
  "apple_music_album song_info =
     (case dict_item song_info ''apple_music'' of
        Inl e \<Rightarrow> Inl e
      | Inr am \<Rightarrow> dict_get am ''albumName'' JNull)"

definition spotify_album :: "json \<Rightarrow> py_error + json" where
  \<comment> \<open>\<^verbatim>\<open>song_info['spotify'].get('album', {}).get('name')\<close>\<close>
  "spotify_album song_info =
     (case dict_item song_info ''spotify'' of
        Inl e \<Rightarrow> Inl e
      | Inr sp \<Rightarrow>
          (case dict_get sp ''album'' (JDict []) of
             Inl e \<Rightarrow> Inl e
           | Inr al \<Rightarrow> dict_get al ''name'' JNull))"

definition resolve_album :: "json \<Rightarrow> py_error + json" where
  \<comment> \<open>the \<^verbatim>\<open>if\<close>/\<^verbatim>\<open>elif\<close> chain that assigns \<^verbatim>\<open>album\<close>, initially \<^verbatim>\<open>None\<close>\<close>
  "resolve_album song_info =
     (case (if dict_contains song_info ''apple_music''
            then (case apple_music_album song_info of Inl e \<Rightarrow> Inl e | Inr a \<Rightarrow> Inr (truthy a))
            else Inr False) of
        Inl e \<Rightarrow> Inl e
      | Inr True \<Rightarrow>
          (case dict_item song_info ''apple_music'' of
             Inl e \<Rightarrow> Inl e
           | Inr am \<Rightarrow> dict_item am ''albumName'')
      | Inr False \<Rightarrow>
          (case (if dict_contains song_info ''spotify''
                 then (case spotify_album song_info of Inl e \<Rightarrow> Inl e | Inr a \<Rightarrow> Inr (truthy a))
                 else Inr False) of
             Inl e \<Rightarrow> Inl e
           | Inr True \<Rightarrow>
               (case dict_item song_info ''spotify'' of
                  Inl e \<Rightarrow> Inl e
                | Inr sp \<Rightarrow>
                    (case dict_item sp ''album'' of
                       Inl e \<Rightarrow> Inl e
                     | Inr al \<Rightarrow> dict_item al ''name''))
           | Inr False \<Rightarrow>
               (case dict_get song_info ''album'' JNull of
                  Inl e \<Rightarrow> Inl e
                | Inr a \<Rightarrow> if truthy a then dict_item song_info ''album'' else Inr JNull)))"

definition album_is_used :: "json \<Rightarrow> py_error + bool" where
  \<comment> \<open>\<^verbatim>\<open>album and album.strip()\<close>, as a truth value\<close>
  "album_is_used album0 =
     (if truthy album0
      then (case album0 of JStr a \<Rightarrow> Inr (str_strip a \<noteq> []) | _ \<Rightarrow> Inl AttributeError)
      else Inr False)"

definition create_folder_structure ::
  "organizer \<Rightarrow> world \<Rightarrow> json \<Rightarrow> path \<Rightarrow> (py_error + path) \<times> world" where
  "create_folder_structure org w song_info original_file =
     (case dict_get song_info ''artist'' (JStr ''Unknown Artist'') of
        Inl e \<Rightarrow> (Inl e, w)
      | Inr artist0 \<Rightarrow>
     (case dict_get song_info ''title'' (JStr ''Unknown Title'') of
        Inl e \<Rightarrow> (Inl e, w)
      | Inr title0 \<Rightarrow>
     (case resolve_album song_info of
        Inl e \<Rightarrow> (Inl e, w)
      | Inr album0 \<Rightarrow>
     (case py_sanitize artist0 of
        Inl e \<Rightarrow> (Inl e, w)
      | Inr artist1 \<Rightarrow>
     (case py_sanitize title0 of
        Inl e \<Rightarrow> (Inl e, w)
      | Inr title1 \<Rightarrow>
     (let artist_folder = output_folder org @ [artist1]
      in case album_is_used album0 of
           Inl e \<Rightarrow> (Inl e, w)
         | Inr used \<Rightarrow>
     (case (if used
            then (case py_sanitize album0 of
                    Inl e \<Rightarrow> Inl e
                  | Inr album1 \<Rightarrow> Inr (artist_folder @ [album1]))
            else Inr artist_folder) of
        Inl e \<Rightarrow> (Inl e, w)
      | Inr target_folder \<Rightarrow>
     (case (if \<not> dry_run org then mkdir_parents w target_folder else Inr w) of
        Inl e \<Rightarrow> (Inl e, w)
      | Inr w1 \<Rightarrow>
          (let file_extension = path_suffix original_file;
               target_file = target_folder @ [title1 @ file_extension]
           in (Inr target_file, w1))))))))))"

subsection \<open>\<^verbatim>\<open>move_file\<close>\<close>

definition relative_to :: "path \<Rightarrow> path \<Rightarrow> py_error + path" where
  \<comment> \<open>\<^verbatim>\<open>p.relative_to(base)\<close>, evaluated by two of the log messages\<close>
  "relative_to p base = (if prefix base p then Inr (drop (length base) p) else Inl ValueError)"

definition move_file_try ::
  "env \<Rightarrow> organizer \<Rightarrow> world \<Rightarrow> path \<Rightarrow> path \<Rightarrow> (py_error + bool) \<times> world" where
  \<comment> \<open>the \<^verbatim>\<open>try\<close> block; the world keeps what was done before an exception\<close>
  "move_file_try env org w source target =
     (if path_exists w target then
        (case get_file_hash env w source of
           Inl e \<Rightarrow> (Inl e, w)
         | Inr source_hash \<Rightarrow>
        (case get_file_hash env w target of
           Inl e \<Rightarrow> (Inl e, w)
         | Inr target_hash \<Rightarrow>
            if source_hash = target_hash then
              (case os_remove w source of
                 Inl e \<Rightarrow> (Inl e, w)
               | Inr w1 \<Rightarrow> (Inr True, w1))
            else
              (case getsize w source of
                 Inl e \<Rightarrow> (Inl e, w)
               | Inr source_size \<Rightarrow>
              (case getsize w target of
                 Inl e \<Rightarrow> (Inl e, w)
               | Inr target_size \<Rightarrow>
                  if source_size > target_size then
                    (case os_remove w target of
                       Inl e \<Rightarrow> (Inl e, w)
                     | Inr w1 \<Rightarrow>
                         (case shutil_move w1 source target of
                            Inl e \<Rightarrow> (Inl e, w1)
                          | Inr w2 \<Rightarrow> (Inr True, w2)))
                  else
                    (case os_remove w source of
                       Inl e \<Rightarrow> (Inl e, w)
                     | Inr w1 \<Rightarrow> (Inr True, w1))))))
      else
        (case shutil_move w source target of
           Inl e \<Rightarrow> (Inl e, w)
         | Inr w1 \<Rightarrow>
             (case relative_to target (output_folder org) of
                Inl e \<Rightarrow> (Inl e, w1)
              | Inr rel \<Rightarrow> (Inr True, w1))))"

definition move_file ::
  "env \<Rightarrow> organizer \<Rightarrow> world \<Rightarrow> path \<Rightarrow> path \<Rightarrow> (py_error + bool) \<times> world" where
  "move_file env org w source target =
     (if dry_run org then
        (case relative_to target (output_folder org) of
           Inl e \<Rightarrow> (Inl e, w)
         | Inr rel \<Rightarrow> (Inr True, w))
      else
        (case move_file_try env org w source target of
           (Inl e, w1) \<Rightarrow> (Inr False, w1)
         | (Inr ok, w1) \<Rightarrow> (Inr ok, w1)))"

subsection \<open>\<^verbatim>\<open>process_file\<close>\<close>

definition finally_unlink :: "nat \<Rightarrow> world \<Rightarrow> world" where
  \<comment> \<open>\<^verbatim>\<open>try: os.unlink(clip_path) except: pass\<close>\<close>
  "finally_unlink clip_path w =
     (case tmp_unlink clip_path (tmp w) of
        Inl e \<Rightarrow> w
      | Inr t \<Rightarrow> w\<lparr>tmp := t\<rparr>)"

definition process_file_try ::
  "env \<Rightarrow> organizer \<Rightarrow> world \<Rightarrow> path \<Rightarrow> nat \<Rightarrow> (py_error + bool) \<times> organizer \<times> world"
  where
  \<comment> \<open>the \<^verbatim>\<open>try\<close> block of \<^verbatim>\<open>process_file\<close>\<close>
  "process_file_try env org w file_path clip_path =
     (case identify_song env org clip_path default_retries w of
        (Inl e, w1) \<Rightarrow> (Inl e, org, w1)
      | (Inr found, w1) \<Rightarrow>
          (case (case found of None \<Rightarrow> None | Some v \<Rightarrow> if truthy v then Some v else None) of
             None \<Rightarrow> (Inr False, org\<lparr>failed_files := failed_files org @ [file_path]\<rparr>, w1)
           | Some song_info \<Rightarrow>
               (case create_folder_structure org w1 song_info file_path of
                  (Inl e, w2) \<Rightarrow> (Inl e, org, w2)
                | (Inr target, w2) \<Rightarrow>
                    (case move_file env org w2 file_path target of
                       (Inl e, w3) \<Rightarrow> (Inl e, org, w3)
                     | (Inr False, w3) \<Rightarrow> (Inr False, org, w3)
                     | (Inr True, w3) \<Rightarrow>
                         (case dict_get song_info ''artist'' (JStr ''Unknown'') of
                            Inl e \<Rightarrow> (Inl e, org, w3)
                          | Inr a \<Rightarrow>
                         (case dict_get song_info ''title'' (JStr ''Unknown'') of
                            Inl e \<Rightarrow> (Inl e, org, w3)
                          | Inr t \<Rightarrow>
                         (case dict_get song_info ''album'' (JStr []) of
                            Inl e \<Rightarrow> (Inl e, org, w3)
                          | Inr al \<Rightarrow>
                              (Inr True,
                               org\<lparr>processed_files := processed_files org @
                                 [\<lparr>original_path = file_path, target_path = target,
                                   entry_artist = a, entry_title = t, entry_album = al\<rparr>]\<rparr>,
                               w3))))))))"

definition process_file ::
  "env \<Rightarrow> organizer \<Rightarrow> world \<Rightarrow> path \<Rightarrow> (py_error + bool) \<times> organizer \<times> world" where
  \<comment> \<open>an exception that escapes is \<open>Inl\<close>; the organizer and the world keep what was done\<close>
  "process_file env org w file_path =
     (if \<not> validate_audio_file env w file_path then
        (Inr False, org\<lparr>failed_files := failed_files org @ [file_path]\<rparr>, w)
      else
        (case get_file_hash env w file_path of
           Inl e \<Rightarrow> (Inl e, org, w)
         | Inr file_hash \<Rightarrow>
             if file_hash \<in> dom (file_hashes org) then
               (if \<not> dry_run org then
                  (case os_remove w file_path of
                     Inl e \<Rightarrow> (Inl e, org, w)
                   | Inr w1 \<Rightarrow> (Inr True, org, w1))
                else (Inr True, org, w))
             else
               (let org1 = org\<lparr>file_hashes := (file_hashes org)(file_hash \<mapsto> file_path)\<rparr>
                in case create_random_clip env w file_path (clip_duration org1) of
                     (None, w1) \<Rightarrow>
                       (Inr False, org1\<lparr>failed_files := failed_files org1 @ [file_path]\<rparr>, w1)
                   | (Some clip_path, w1) \<Rightarrow>
                       (case process_file_try env org1 w1 file_path clip_path of
                          (r, org2, w2) \<Rightarrow> (r, org2, finally_unlink clip_path w2)))))"

subsection \<open>\<^verbatim>\<open>save_results\<close> and \<^verbatim>\<open>organize_library\<close>\<close>

definition results_of :: "organizer \<Rightarrow> processing_stats \<Rightarrow> results" where
  "results_of org st =
     \<lparr>results_stats =
        \<lparr>total = total st, success = success st, failed = failed st,
         skipped = skipped st, duplicates = duplicates st\<rparr>,
      results_processed_files = processed_files org,
      results_failed_files = failed_files org\<rparr>"

definition save_results :: "env \<Rightarrow> organizer \<Rightarrow> world \<Rightarrow> processing_stats \<Rightarrow> py_error + world"
  where
  \<comment> \<open>\<^verbatim>\<open>open(results_file, 'w')\<close> needs the output folder and replaces a regular file\<close>
  "save_results env org w st =
     (let results_file = output_folder org @ [''organization_results.json'']
      in if \<not> is_dir w (output_folder org) then Inl FileNotFoundError
         else if files w results_file = Some Dir then Inl IsADirectoryError
         else Inr (w\<lparr>files := (files w)(results_file \<mapsto> File (json_dump env (results_of org st)))\<rparr>))"

type_synonym run_state = "organizer \<times> world \<times> processing_stats"

definition loop_body :: "env \<Rightarrow> rat \<Rightarrow> nat \<Rightarrow> nat \<Rightarrow> path \<Rightarrow> run_state \<Rightarrow> run_state" where
  \<comment> \<open>one iteration for the \<open>i\<close>-th of \<open>n\<close> files\<close>
  "loop_body env delay n i file_path s =
     (case s of (org, w, st) \<Rightarrow>
        (case process_file env org w file_path of
           (r, org1, w1) \<Rightarrow>
             (let st1 = (case r of
                           Inr True \<Rightarrow> st\<lparr>success := success st + 1\<rparr>
                         | Inr False \<Rightarrow> st\<lparr>failed := failed st + 1\<rparr>
                         | Inl e \<Rightarrow> st\<lparr>failed := failed st + 1\<rparr>);
                  w2 = (if i < n \<and> delay > 0 then time_sleep delay w1 else w1)
              in (org1, w2, st1))))"

fun process_loop :: "env \<Rightarrow> rat \<Rightarrow> nat \<Rightarrow> nat \<Rightarrow> path list \<Rightarrow> run_state \<Rightarrow> run_state" where
  \<comment> \<open>\<^verbatim>\<open>for i, file_path in enumerate(audio_files, 1)\<close>, from index \<open>i\<close> on\<close>
  "process_loop env delay n i [] s = s"
| "process_loop env delay n i (file_path # rest) s =
     process_loop env delay n (Suc i) rest (loop_body env delay n i file_path s)"

definition initial_stats :: "nat \<Rightarrow> processing_stats" where
  \<comment> \<open>\<^verbatim>\<open>ProcessingStats(total=n)\<close>\<close>
  "initial_stats n = \<lparr>total = n, success = 0, failed = 0, skipped = 0, duplicates = 0\<rparr>"

definition organize_library ::
  "env \<Rightarrow> organizer \<Rightarrow> world \<Rightarrow> path list \<Rightarrow> rat
     \<Rightarrow> (py_error + processing_stats) \<times> organizer \<times> world" where
  "organize_library env org w listing delay =
     (let audio_files = get_audio_files w listing;
          stats0 = initial_stats (length audio_files)
      in case process_loop env delay (length audio_files) 1 audio_files (org, w, stats0) of
           (org1, w1, stats1) \<Rightarrow>
             (case save_results env org1 w1 stats1 of
                Inl e \<Rightarrow> (Inl e, org1, w1)
              | Inr w2 \<Rightarrow> (Inr stats1, org1, w2)))"

definition new_organizer ::
  "world \<Rightarrow> string \<Rightarrow> path \<Rightarrow> path \<Rightarrow> bool \<Rightarrow> int \<Rightarrow> py_error + organizer \<times> world" where
  \<comment> \<open>\<^verbatim>\<open>AudioOrganizer.__init__\<close>\<close>
  "new_organizer w token input_dir output_dir dry duration =
     (case (if \<not> dry then mkdir_parents w output_dir else Inr w) of
        Inl e \<Rightarrow> Inl e
      | Inr w1 \<Rightarrow>
          Inr (\<lparr>api_token = token, input_folder = input_dir, output_folder = output_dir,
                dry_run = dry, clip_duration = duration, processed_files = [],
                failed_files = [], file_hashes = Map.empty\<rparr>, w1))"

section \<open>Specification-side definitions\<close>

subsection \<open>Sanitization\<close>



subsection \<open>Identification\<close>

text \<open>
  The specification's table of outcomes. An outcome is retried when it is the rate-limited
  status 901 or a timeout; any other outcome decides the call: a status 200 whose body
  reports success with a non-empty result gives that result, everything else gives nothing.
  \<open>outcome env org w data i\<close> is what the transport answers to the \<open>i\<close>-th request from
  world \<open>w\<close> on. \<open>backoff\<close> is the sleep after a retried attempt: \<open>2 ^ attempt\<close> seconds,
  except after a timeout on the last attempt.
\<close>

definition retryable :: "http_outcome \<Rightarrow> bool" where
  "retryable out =
     (case out of Response code body \<Rightarrow> code = 901 | TimedOut \<Rightarrow> True | TransportFailure \<Rightarrow> False)"

definition payload_of :: "json option \<Rightarrow> json option" where
  "payload_of body =
     (case body of
        Some (JDict kvs) \<Rightarrow>
          (if map_of kvs ''status'' = Some (JStr ''success'')
           then (case map_of kvs ''result'' of
                   Some v \<Rightarrow> if truthy v then Some v else None
                 | None \<Rightarrow> None)
           else None)
      | _ \<Rightarrow> None)"

definition decided :: "http_outcome \<Rightarrow> json option" where
  "decided out =
     (case out of
        Response code body \<Rightarrow> if code = 200 then payload_of body else None
      | _ \<Rightarrow> None)"

fun first_decisive :: "http_outcome list \<Rightarrow> json option" where
  "first_decisive [] = None"
| "first_decisive (out # outs) = (if retryable out then first_decisive outs else decided out)"

definition backoff :: "int \<Rightarrow> nat \<Rightarrow> http_outcome \<Rightarrow> rat list" where
  "backoff retries attempt out =
     (if out = TimedOut \<and> \<not> int attempt < retries - 1 then [] else [2 ^ attempt])"

fun backoffs :: "int \<Rightarrow> nat list \<Rightarrow> http_outcome list \<Rightarrow> rat list" where
  "backoffs retries (a # as) (out # outs) =
     (if retryable out then backoff retries a out @ backoffs retries as outs else [])"
| "backoffs retries _ _ = []"

definition outcome :: "env \<Rightarrow> organizer \<Rightarrow> world \<Rightarrow> bytes \<Rightarrow> nat \<Rightarrow> http_outcome" where
  "outcome env org w data i = http_post env (requests w + i) (api_token org) data"

fun requests_sent :: "http_outcome list \<Rightarrow> nat" where
  "requests_sent [] = 0"
| "requests_sent (out # outs) = (if retryable out then Suc (requests_sent outs) else 1)"

subsection \<open>Target path\<close>













section \<open>An example library\<close>

text \<open>
  A small concrete setting on which the properties below are instantiated. The input
  folder holds two identical files \<open>a.mp3\<close> and \<open>b.mp3\<close> and a third file \<open>c.MP3\<close>. Every
  file decodes to 100 seconds of audio, except that content \<open>short\<close> decodes to 5 seconds
  and content \<open>bad\<close> does not decode; content \<open>noexport\<close> decodes but cannot be exported.
  The service is rate-limited on the first request, recognises the second upload and
  finds nothing afterwards. The digest is the content itself.
\<close>

definition example_song :: json where
  "example_song =
     JDict [(''artist'', JStr ''AC/DC''), (''title'', JStr ''Back (Live) [Remix]''),
            (''apple_music'', JDict [(''albumName'', JStr ''Black'')])]"

definition example_env :: env where
  "example_env =
     \<lparr>md5_hexdigest = (\<lambda>b. b),
      from_file = (\<lambda>p b. if b = ''bad'' then None
                          else if b = ''short'' then Some 5000 else Some 100000),
      export_mp3 = (\<lambda>p b c. if b = ''noexport'' then None else Some ''clip''),
      http_post = (\<lambda>n token data.
         if n = 0 then Response 901 None
         else if n = 1 then
           Response 200 (Some (JDict [(''status'', JStr ''success''), (''result'', example_song)]))
         else Response 200 (Some (JDict [(''status'', JStr ''success''), (''result'', JNull)]))),
      random_source = (\<lambda>n. 7),
      json_dump = (\<lambda>r. ''manifest'')\<rparr>"

definition example_world :: world where
  "example_world =
     \<lparr>files = [[''in''] \<mapsto> Dir,
               [''in'', ''a.mp3''] \<mapsto> File ''AAAA'',
               [''in'', ''b.mp3''] \<mapsto> File ''AAAA'',
               [''in'', ''c.MP3''] \<mapsto> File ''CC''],
      tmp = [], sleeps = [], requests = 0, draws = 0\<rparr>"

subsection \<open>Example organizer\<close>

definition example_organizer :: organizer where
  "example_organizer =
     \<lparr>api_token = ''token'', input_folder = [''in''], output_folder = [''out''],
      dry_run = False, clip_duration = 10, processed_files = [], failed_files = [],
      file_hashes = Map.empty\<rparr>"

definition example_clip_world :: world where
  "example_clip_world = example_world\<lparr>tmp := [(1, ''clip'')]\<rparr>"

subsection \<open>Example run\<close>

text \<open>
  The example library with an existing output folder, what the directory scan lists, and
  the states of the run after each of the three files.
\<close>

definition example_start :: world where
  "example_start = example_world\<lparr>files := (files example_world)([''out''] \<mapsto> Dir)\<rparr>"

definition example_listing :: "path list" where
  "example_listing = [[''in''], [''in'', ''a.mp3''], [''in'', ''b.mp3''], [''in'', ''c.MP3'']]"

definition example_org_a :: organizer where
  "example_org_a =
     example_organizer\<lparr>file_hashes := [''AAAA'' \<mapsto> [''in'', ''a.mp3'']],
         processed_files := [\<lparr>original_path = [''in'', ''a.mp3''],
            target_path = [''out'', ''AC_DC'', ''Black'', ''Back.mp3''],
            entry_artist = JStr ''AC/DC'', entry_title = JStr ''Back (Live) [Remix]'',
            entry_album = JStr []\<rparr>]\<rparr>"

definition example_world_a :: world where
  "example_world_a =
     \<lparr>files = (files example_start)
          ([''out'', ''AC_DC''] \<mapsto> Dir, [''out'', ''AC_DC'', ''Black''] \<mapsto> Dir,
           [''in'', ''a.mp3''] := None,
           [''out'', ''AC_DC'', ''Black'', ''Back.mp3''] \<mapsto> File ''AAAA''),
      tmp = [], sleeps = [1, 1], requests = 2, draws = 1\<rparr>"

definition example_world_b :: world where
  "example_world_b =
     example_world_a\<lparr>files := (files example_world_a)([''in'', ''b.mp3''] := None),
                     sleeps := [1, 1, 1]\<rparr>"

definition example_org_c :: organizer where
  "example_org_c =
     example_org_a\<lparr>file_hashes := (file_hashes example_org_a)(''CC'' \<mapsto> [''in'', ''c.MP3'']),
                   failed_files := [[''in'', ''c.MP3'']]\<rparr>"

definition example_world_c :: world where
  "example_world_c = example_world_b\<lparr>requests := 3, draws := 2\<rparr>"

definition example_stats :: "nat \<Rightarrow> nat \<Rightarrow> processing_stats" where
  "example_stats s f = \<lparr>total = 3, success = s, failed = f, skipped = 0, duplicates = 0\<rparr>"

subsection \<open>Further example libraries\<close>


definition example_noexport_world :: world where
  "example_noexport_world =
     \<lparr>files = [[''in''] \<mapsto> Dir, [''out''] \<mapsto> Dir,
               [''in'', ''d.mp3''] \<mapsto> File ''noexport''],
      tmp = [], sleeps = [], requests = 0, draws = 0\<rparr>"

definition example_organized_world :: world where
  "example_organized_world =
     \<lparr>files = [[''out''] \<mapsto> Dir, [''out'', ''AC_DC''] \<mapsto> Dir,
               [''out'', ''AC_DC'', ''Black''] \<mapsto> Dir,
               [''out'', ''AC_DC'', ''Black'', ''Back.mp3''] \<mapsto> File ''AAAA''],
      tmp = [], sleeps = [], requests = 0, draws = 0\<rparr>"








section \<open>Properties\<close>

subsection \<open>Sanitization\<close>













subsection \<open>Clip selection\<close>

lemma bit_length_lower: "0 < n \<Longrightarrow> 2 ^ (bit_length n - 1) \<le> n"
proof (induction n rule: bit_length.induct)
  case (1 n)
  show ?case
  proof (cases "n div 2 = 0")
    case True
    with 1(2) have "n = 1" by presburger
    then show ?thesis by (simp add: bit_length.simps)
  next
    case False
    then have pos: "0 < n div 2" by simp
    with 1 have ih: "2 ^ (bit_length (n div 2) - 1) \<le> n div 2" by simp
    from pos have "0 < bit_length (n div 2)" by (simp add: bit_length.simps [of "n div 2"])
    then have "(2::nat) ^ bit_length (n div 2) = 2 * 2 ^ (bit_length (n div 2) - 1)"
      by (cases "bit_length (n div 2)") simp_all
    with ih have "(2::nat) ^ bit_length (n div 2) \<le> n" by simp
    moreover from 1(2) have "bit_length n - 1 = bit_length (n div 2)"
      by (simp add: bit_length.simps [of n])
    ultimately show ?thesis by simp
  qed
qed

lemma round_to_53_bits_upper: "round_to_53_bits a \<le> a + a div 2 ^ 53"
proof (cases "bit_length a - 53 = 0")
  case True
  then show ?thesis by (simp add: round_to_53_bits_def)
next
  case False
  define e where "e = bit_length a - 53"
  define h :: nat where "h = 2 ^ (e - 1)"
  from False have e: "0 < e" by (simp add: e_def)
  then obtain k where k: "e = Suc k" by (cases e) auto
  have two_e: "(2::nat) ^ e = 2 * h" unfolding h_def k by simp
  have "a \<noteq> 0"
  proof
    assume "a = 0"
    then have "bit_length a = 0" by (simp add: bit_length.simps [of 0])
    with False show False by simp
  qed
  then have apos: "0 < a" by simp
  have "h * 2 ^ 53 = 2 ^ (e - 1 + 53)" by (simp add: h_def power_add)
  also from e have "e - 1 + 53 = bit_length a - 1" by (simp add: e_def)
  also have "(2::nat) ^ (bit_length a - 1) \<le> a" using apos by (rule bit_length_lower)
  finally have "h * 2 ^ 53 \<le> a" .
  then have hle: "h \<le> a div 2 ^ 53" by (simp add: less_eq_div_iff_mult_less_eq)
  have decomp: "a = a div 2 ^ e * 2 ^ e + a mod 2 ^ e" by (rule div_mult_mod_eq [symmetric])
  have down: "a div 2 ^ e * 2 ^ e \<le> a" by simp
  have up: "(a div 2 ^ e + 1) * 2 ^ e \<le> a + h" if "h \<le> a mod 2 ^ e"
  proof -
    have "(a div 2 ^ e + 1) * 2 ^ e = a div 2 ^ e * 2 ^ e + 2 * h" by (simp add: two_e)
    also have "\<dots> \<le> a div 2 ^ e * 2 ^ e + a mod 2 ^ e + h" using that by simp
    also have "\<dots> = a + h" using decomp by simp
    finally show ?thesis .
  qed
  have rdef: "round_to_53_bits a =
      (if h < a mod 2 ^ e \<or> (a mod 2 ^ e = h \<and> odd (a div 2 ^ e))
       then a div 2 ^ e + 1 else a div 2 ^ e) * 2 ^ e"
    using False unfolding round_to_53_bits_def Let_def e_def h_def by simp
  have "round_to_53_bits a \<le> a + h"
  proof (cases "h < a mod 2 ^ e \<or> (a mod 2 ^ e = h \<and> odd (a div 2 ^ e))")
    case True
    then have "h \<le> a mod 2 ^ e" by auto
    from up [OF this] True show ?thesis unfolding rdef by simp
  next
    case nr: False
    have "a div 2 ^ e * 2 ^ e \<le> a + h" using down by (rule trans_le_add1)
    with nr show ?thesis unfolding rdef by auto
  qed
  with hle show ?thesis by simp
qed

lemma times_0_85_le: "times_0_85 n \<le> int n"
proof -
  let ?m = "7656119366529843 :: nat"
  have "round_to_53_bits (n * ?m) \<le> n * ?m + (n * ?m) div 2 ^ 53"
    by (rule round_to_53_bits_upper)
  also have "(n * ?m) div 2 ^ 53 \<le> (n * 2 ^ 53) div 2 ^ 53"
    by (rule div_le_mono) simp
  also have "(n * 2 ^ 53) div 2 ^ 53 = n" by simp
  finally have "round_to_53_bits (n * ?m) \<le> n * ?m + n" by simp
  also have "\<dots> \<le> n * 2 ^ 53" 
  proof -
    have "n * ?m + n = n * (?m + 1)" by simp
    also have "\<dots> \<le> n * 2 ^ 53" by (rule mult_le_mono2) simp
    finally show ?thesis .
  qed
  finally have "round_to_53_bits (n * ?m) div 2 ^ 53 \<le> (n * 2 ^ 53) div 2 ^ 53"
    by (rule div_le_mono)
  then show ?thesis by (simp add: times_0_85_def int_of_product_def)
qed

lemma times_0_15_nonneg: "0 \<le> times_0_15 n"
  by (simp add: times_0_15_def int_of_product_def)

lemma randint_range:
  assumes "a \<le> b"
  shows "\<exists>n. randint env w a b = (Inr n, w\<lparr>draws := Suc (draws w)\<rparr>) \<and> a \<le> n \<and> n \<le> b"
proof -
  let ?k = "random_source env (draws w) mod nat (b - a + 1)"
  from assms have pos: "0 < nat (b - a + 1)" by simp
  then have "?k < nat (b - a + 1)" by (rule mod_less_divisor)
  with assms have "a + int ?k \<le> b" by linarith
  moreover have "a \<le> a + int ?k" by simp
  moreover from assms have "randint env w a b = (Inr (a + int ?k), w\<lparr>draws := Suc (draws w)\<rparr>)"
    by (simp add: randint_def)
  ultimately show ?thesis by blast
qed

lemma bit_length_15: "bit_length 540431955284459500000 = 69"
  by (simp add: bit_length.simps)

lemma bit_length_85: "bit_length 765611936652984300000 = 70"
  by (simp add: bit_length.simps)

lemma times_0_15_example: "times_0_15 100000 = 15000"
  by (simp add: times_0_15_def int_of_product_def round_to_53_bits_def bit_length_15 Let_def)

lemma times_0_85_example: "times_0_85 100000 = 85000"
  by (simp add: times_0_85_def int_of_product_def round_to_53_bits_def bit_length_85 Let_def)

lemma pick_clip_short:
  "int audio_len < duration * 1000 \<Longrightarrow> pick_clip env w audio_len duration = (Inr FullTrack, w)"
  by (simp add: pick_clip_def)

lemma pick_clip_random:
  assumes "duration * 1000 \<le> int audio_len"
    and "duration * 1000 \<le> times_0_85 audio_len - times_0_15 audio_len"
  shows "\<exists>s. pick_clip env w audio_len duration =
            (Inr (Window s (s + duration * 1000)), w\<lparr>draws := Suc (draws w)\<rparr>)
          \<and> times_0_15 audio_len \<le> s \<and> s \<le> times_0_85 audio_len - duration * 1000
          \<and> 0 \<le> s \<and> s + duration * 1000 \<le> int audio_len"
proof -
  from assms(2) have "times_0_15 audio_len \<le> times_0_85 audio_len - duration * 1000" by simp
  then obtain n where n: "randint env w (times_0_15 audio_len) (times_0_85 audio_len - duration * 1000)
      = (Inr n, w\<lparr>draws := Suc (draws w)\<rparr>)"
    "times_0_15 audio_len \<le> n" "n \<le> times_0_85 audio_len - duration * 1000"
    using randint_range by blast
  from assms n(1) have "pick_clip env w audio_len duration =
      (Inr (Window n (n + duration * 1000)), w\<lparr>draws := Suc (draws w)\<rparr>)"
    by (simp add: pick_clip_def Let_def)
  moreover from n(2) times_0_15_nonneg [of audio_len] have "0 \<le> n" by simp
  moreover from n(3) times_0_85_le [of audio_len] have "n + duration * 1000 \<le> int audio_len"
    by simp
  ultimately show ?thesis using n(2,3) by blast
qed

lemma pick_clip_middle:
  assumes "duration * 1000 \<le> int audio_len"
    and "times_0_85 audio_len - times_0_15 audio_len < duration * 1000"
  shows "pick_clip env w audio_len duration =
            (Inr (Window (int audio_len div 2 - duration * 500)
                         (int audio_len div 2 + duration * 500)), w)
          \<and> 0 \<le> int audio_len div 2 - duration * 500
          \<and> int audio_len div 2 + duration * 500 \<le> int audio_len"
proof -
  from assms(1) have lo: "0 \<le> int audio_len div 2 - duration * 500" by linarith
  from assms(1) have hi: "int audio_len div 2 + duration * 500 \<le> int audio_len" by linarith
  from lo have "max 0 (int audio_len div 2 - duration * 500) = int audio_len div 2 - duration * 500"
    by simp
  with assms have "pick_clip env w audio_len duration =
            (Inr (Window (int audio_len div 2 - duration * 500)
                         (int audio_len div 2 + duration * 500)), w)"
    by (simp add: pick_clip_def Let_def)
  with lo hi show ?thesis by simp
qed

text \<open>
  Claim C7. With the track length and the clip length in milliseconds (the clip length is
  \<open>duration * 1000\<close>): a track shorter than the clip is used whole. Otherwise, when the safe
  zone from \<open>int(total * 0.15)\<close> to \<open>int(total * 0.85)\<close> is at least as long as the clip,
  then whatever the random source returns the window starts between the safe start and the
  safe end minus the clip length, is exactly one clip length long and lies inside the
  track; when the safe zone is
  shorter than the clip, the window extends half a clip length to either side of the middle
  \<open>total div 2\<close> and lies inside the track. A 5000 ms track with a 10 s clip is used whole; a
  100000 ms track with a 10 s clip gives a window of 10000 ms inside \<open>[15000, 85000]\<close>.
\<close>

theorem pick_clip_window:
  "(int audio_len < duration * 1000 \<longrightarrow>
      pick_clip env w audio_len duration = (Inr FullTrack, w))
   \<and> (duration * 1000 \<le> int audio_len
        \<and> duration * 1000 \<le> times_0_85 audio_len - times_0_15 audio_len \<longrightarrow>
      (\<exists>s. pick_clip env w audio_len duration =
              (Inr (Window s (s + duration * 1000)), w\<lparr>draws := Suc (draws w)\<rparr>)
          \<and> times_0_15 audio_len \<le> s \<and> s \<le> times_0_85 audio_len - duration * 1000
          \<and> 0 \<le> s \<and> s + duration * 1000 \<le> int audio_len))
   \<and> (duration * 1000 \<le> int audio_len
        \<and> times_0_85 audio_len - times_0_15 audio_len < duration * 1000 \<longrightarrow>
      pick_clip env w audio_len duration =
        (Inr (Window (int audio_len div 2 - duration * 500)
                     (int audio_len div 2 + duration * 500)), w)
      \<and> 0 \<le> int audio_len div 2 - duration * 500
      \<and> int audio_len div 2 + duration * 500 \<le> int audio_len)
   \<and> pick_clip env w 5000 10 = (Inr FullTrack, w)
   \<and> (\<exists>s. fst (pick_clip env w 100000 10) = Inr (Window s (s + 10000))
          \<and> 15000 \<le> s \<and> s + 10000 \<le> 85000)"
proof -
  have ex1: "pick_clip env w 5000 10 = (Inr FullTrack, w)"
    by (rule pick_clip_short) simp
  have "\<exists>s. pick_clip env w 100000 10 =
              (Inr (Window s (s + 10 * 1000)), w\<lparr>draws := Suc (draws w)\<rparr>)
          \<and> times_0_15 100000 \<le> s \<and> s \<le> times_0_85 100000 - 10 * 1000
          \<and> 0 \<le> s \<and> s + 10 * 1000 \<le> int 100000"
    by (rule pick_clip_random) (simp_all add: times_0_15_example times_0_85_example)
  then have ex2: "\<exists>s. fst (pick_clip env w 100000 10) = Inr (Window s (s + 10000))
          \<and> 15000 \<le> s \<and> s + 10000 \<le> 85000"
    by (auto simp: times_0_15_example times_0_85_example)
  show ?thesis
    using pick_clip_short [of audio_len duration env w]
      pick_clip_random [of duration audio_len env w]
      pick_clip_middle [of duration audio_len env w] ex1 ex2
    by blast
qed


theorem pick_clip_window_witness:
  "pick_clip example_env example_world 5000 10 = (Inr FullTrack, example_world)
   \<and> (\<exists>s. pick_clip example_env example_world 100000 10 =
              (Inr (Window s (s + 10000)), example_world\<lparr>draws := Suc (draws example_world)\<rparr>)
          \<and> 15000 \<le> s \<and> s \<le> 75000)
   \<and> pick_clip example_env example_world 12000 10 = (Inr (Window 1000 11000), example_world)"
proof -
  have b15: "times_0_15 12000 = 1800"
    by (simp add: times_0_15_def int_of_product_def round_to_53_bits_def bit_length.simps Let_def)
  have b85: "times_0_85 12000 = 10200"
    by (simp add: times_0_85_def int_of_product_def round_to_53_bits_def bit_length.simps Let_def)
  show ?thesis
    using pick_clip_window [of 5000 10 example_env example_world]
      pick_clip_window [of 100000 10 example_env example_world]
      pick_clip_window [of 12000 10 example_env example_world]
    by (auto simp: times_0_15_example times_0_85_example b15 b85)
qed

subsection \<open>Identification\<close>

lemma attempt_try_200:
  assumes "tmp_read (tmp w) clip_path = Inr data"
    and "http_post env (requests w) (api_token org) data = Response 200 body"
  shows "attempt_step env org clip_path retries attempt w =
           (Return (payload_of body), w\<lparr>requests := Suc (requests w)\<rparr>)"
proof (cases body)
  case None
  with assms show ?thesis
    by (simp add: attempt_step_def attempt_try_def payload_of_def)
next
  case (Some result)
  show ?thesis
  proof (cases result)
    case (JDict kvs)
    with Some assms show ?thesis
      by (auto simp: attempt_step_def attempt_try_def payload_of_def Let_def
          split: option.splits)
  qed (use Some assms in \<open>simp_all add: attempt_step_def attempt_try_def payload_of_def\<close>)
qed

lemma attempt_step_decisive:
  assumes "tmp_read (tmp w) clip_path = Inr data"
    and "\<not> retryable (http_post env (requests w) (api_token org) data)"
  shows "attempt_step env org clip_path retries attempt w =
           (Return (decided (http_post env (requests w) (api_token org) data)),
            w\<lparr>requests := Suc (requests w)\<rparr>)"
proof (cases "http_post env (requests w) (api_token org) data")
  case (Response code body)
  show ?thesis
  proof (cases "code = 200")
    case True
    with Response assms(1) show ?thesis
      by (simp add: attempt_try_200 decided_def)
  next
    case False
    with Response assms show ?thesis
      by (simp add: attempt_step_def attempt_try_def decided_def retryable_def Let_def)
  qed
next
  case TimedOut
  with assms show ?thesis by (simp add: retryable_def)
next
  case TransportFailure
  with assms show ?thesis
    by (simp add: attempt_step_def attempt_try_def decided_def)
qed

lemma attempt_step_retry:
  assumes "tmp_read (tmp w) clip_path = Inr data"
    and "retryable (http_post env (requests w) (api_token org) data)"
  shows "attempt_step env org clip_path retries attempt w =
           (Continue,
            w\<lparr>requests := Suc (requests w),
              sleeps := sleeps w @ backoff retries attempt
                 (http_post env (requests w) (api_token org) data)\<rparr>)"
proof (cases "http_post env (requests w) (api_token org) data")
  case (Response code body)
  with assms show ?thesis
    by (simp add: attempt_step_def attempt_try_def retryable_def backoff_def time_sleep_def)
next
  case TimedOut
  with assms show ?thesis
    by (simp add: attempt_step_def attempt_try_def backoff_def time_sleep_def)
next
  case TransportFailure
  with assms show ?thesis by (simp add: retryable_def)
qed

lemma attempt_step_unreadable:
  assumes "tmp_read (tmp w) clip_path = Inl e"
  shows "attempt_step env org clip_path retries attempt w = (Return None, w)"
proof -
  from assms have "e = FileNotFoundError"
    by (simp add: tmp_read_def split: option.splits)
  with assms show ?thesis by (simp add: attempt_step_def attempt_try_def)
qed

lemma identify_attempts_outcomes:
  assumes "tmp_read (tmp w) clip_path = Inr data"
  shows "identify_attempts env org clip_path retries as w =
     (let outs = map (\<lambda>i. http_post env (requests w + i) (api_token org) data) [0..<length as]
      in (Inr (first_decisive outs),
          w\<lparr>requests := requests w + requests_sent outs,
            sleeps := sleeps w @ backoffs retries as outs\<rparr>))"
  using assms
proof (induction as arbitrary: w)
  case Nil
  then show ?case by simp
next
  case (Cons a as)
  let ?out = "http_post env (requests w) (api_token org) data"
  let ?outs = "map (\<lambda>i. http_post env (requests w + Suc i) (api_token org) data) [0..<length as]"
  have split: "map (\<lambda>i. http_post env (requests w + i) (api_token org) data) [0..<Suc (length as)]
      = ?out # ?outs"
    by (simp add: map_upt_Suc del: upt_Suc)
  show ?case
  proof (cases "retryable ?out")
    case False
    with Cons.prems show ?thesis
      by (simp add: attempt_step_decisive split Let_def del: upt_Suc)
  next
    case True
    let ?w1 = "w\<lparr>requests := Suc (requests w),
              sleeps := sleeps w @ backoff retries a ?out\<rparr>"
    from Cons.prems have "tmp_read (tmp ?w1) clip_path = Inr data" by simp
    from Cons.IH [OF this] True Cons.prems show ?thesis
      by (simp add: attempt_step_retry split Let_def del: upt_Suc)
  qed
qed


lemma decisive_split:
  assumes "\<forall>x\<in>set pre. retryable x" and "\<not> retryable d" and "length as1 = length pre"
  shows "first_decisive (pre @ d # post) = decided d
       \<and> requests_sent (pre @ d # post) = Suc (length pre)
       \<and> backoffs retries (as1 @ as2) (pre @ d # post) =
           concat (map (\<lambda>(a, out). backoff retries a out) (zip as1 pre))"
  using assms
proof (induction pre arbitrary: as1)
  case Nil
  then show ?case by (cases as2) simp_all
next
  case (Cons x pre)
  then obtain a as1' where as1: "as1 = a # as1'" "length as1' = length pre"
    by (cases as1) auto
  from Cons.prems have "\<forall>x\<in>set pre. retryable x" "retryable x" by simp_all
  with Cons.IH [of as1'] Cons.prems(2) as1 show ?case by simp
qed

lemma exhausted_all:
  assumes "\<forall>x\<in>set outs. retryable x" and "length as = length outs"
  shows "first_decisive outs = None
       \<and> requests_sent outs = length outs
       \<and> backoffs retries as outs =
           concat (map (\<lambda>(a, out). backoff retries a out) (zip as outs))"
  using assms
proof (induction outs arbitrary: as)
  case Nil
  then show ?case by simp
next
  case (Cons x outs)
  then obtain a as' where as: "as = a # as'" "length as' = length outs"
    by (cases as) auto
  with Cons.IH [of as'] Cons.prems(1) show ?case by simp
qed

lemma requests_sent_le: "requests_sent outs \<le> length outs"
  by (induction outs) auto

lemma zip_upt_map: "zip [0..<j] (map f [0..<j]) = map (\<lambda>i. (i, f i)) [0..<j]"
  by (simp add: zip_map2 zip_same_conv_map)

lemma concat_singletons: "\<forall>i\<in>set xs. g i = [h i] \<Longrightarrow> concat (map g xs) = map h xs"
  by (induction xs) auto

lemma identify_song_outcomes:
  assumes "tmp_read (tmp w) clip_path = Inr data"
  shows "identify_song env org clip_path retries w =
     (Inr (first_decisive (map (outcome env org w data) [0..<nat retries])),
      w\<lparr>requests := requests w + requests_sent (map (outcome env org w data) [0..<nat retries]),
        sleeps := sleeps w @
          backoffs retries [0..<nat retries] (map (outcome env org w data) [0..<nat retries])\<rparr>)"
proof -
  have "(\<lambda>i. http_post env (requests w + i) (api_token org) data) = outcome env org w data"
    by (simp add: outcome_def fun_eq_iff)
  with identify_attempts_outcomes [OF assms, of env org retries "[0..<nat retries]"]
  show ?thesis by (simp add: identify_song_def Let_def)
qed

lemma identify_song_unreadable:
  assumes "tmp_read (tmp w) clip_path = Inl e"
  shows "identify_song env org clip_path retries w = (Inr None, w)"
proof (cases "[0..<nat retries]")
  case Nil
  then show ?thesis by (simp add: identify_song_def)
next
  case (Cons a rest)
  with assms show ?thesis by (simp add: identify_song_def attempt_step_unreadable)
qed

lemma identify_song_decisive:
  assumes readable: "tmp_read (tmp w) clip_path = Inr data"
    and j: "j < nat retries"
    and pre: "\<forall>i<j. retryable (outcome env org w data i)"
    and dec: "\<not> retryable (outcome env org w data j)"
  shows "identify_song env org clip_path retries w =
     (Inr (decided (outcome env org w data j)),
      w\<lparr>requests := requests w + j + 1, sleeps := sleeps w @ map (\<lambda>i. 2 ^ i) [0..<j]\<rparr>)"
proof -
  let ?f = "outcome env org w data"
  let ?n = "nat retries"
  from j have upt: "[0..<?n] = [0..<j] @ j # [Suc j..<?n]"
    using upt_add_eq_append [of 0 j "?n - j"] upt_conv_Cons [of j ?n] by simp
  then have outs: "map ?f [0..<?n] = map ?f [0..<j] @ ?f j # map ?f [Suc j..<?n]"
    by simp
  from pre have allr: "\<forall>x\<in>set (map ?f [0..<j]). retryable x" by auto
  have len: "length [0..<j] = length (map ?f [0..<j])" by simp
  note ds = decisive_split [OF allr dec len, of "map ?f [Suc j..<?n]" retries "j # [Suc j..<?n]"]
  have "\<forall>i\<in>set [0..<j]. backoff retries i (?f i) = [2 ^ i]"
  proof
    fix i assume "i \<in> set [0..<j]"
    with j have "int i < retries - 1" by auto
    then show "backoff retries i (?f i) = [2 ^ i]" by (simp add: backoff_def)
  qed
  then have "concat (map (\<lambda>i. backoff retries i (?f i)) [0..<j]) = map (\<lambda>i. 2 ^ i) [0..<j]"
    by (rule concat_singletons)
  then have bo: "concat (map (\<lambda>(a, out). backoff retries a out) (zip [0..<j] (map ?f [0..<j])))
      = map (\<lambda>i. 2 ^ i) [0..<j]"
    by (simp add: zip_upt_map comp_def)
  from ds bo have
    "first_decisive (map ?f [0..<?n]) = decided (?f j)"
    "requests_sent (map ?f [0..<?n]) = Suc j"
    "backoffs retries [0..<?n] (map ?f [0..<?n]) = map (\<lambda>i. 2 ^ i) [0..<j]"
    unfolding outs by (simp_all add: upt [symmetric])
  then show ?thesis
    using identify_song_outcomes [OF readable, of env org retries] by simp
qed

lemma identify_song_exhausted:
  assumes readable: "tmp_read (tmp w) clip_path = Inr data"
    and allr: "\<forall>i<nat retries. retryable (outcome env org w data i)"
  shows "identify_song env org clip_path retries w =
     (Inr None,
      w\<lparr>requests := requests w + nat retries,
        sleeps := sleeps w @
          concat (map (\<lambda>i. backoff retries i (outcome env org w data i)) [0..<nat retries])\<rparr>)"
proof -
  let ?f = "outcome env org w data"
  let ?n = "nat retries"
  from allr have a: "\<forall>x\<in>set (map ?f [0..<?n]). retryable x" by auto
  have len: "length [0..<?n] = length (map ?f [0..<?n])" by simp
  from exhausted_all [OF a len, of retries] show ?thesis
    using identify_song_outcomes [OF readable, of env org retries]
    by (simp add: zip_upt_map comp_def)
qed


text \<open>
  Claim C3. For every clip, every number of retries and every behaviour of the transport,
  \<^verbatim>\<open>identify_song\<close> returns a value and lets no exception escape. The value is that of
  the first attempt whose outcome is not retried, when there is one among the
  \<open>retries\<close> attempts: the result payload of a status 200 that reports success with a
  non-empty result, and null for any other status, for a transport failure, for an
  unparsable body and for a success without result. It is null as well when every attempt
  is retried and when the clip cannot be opened.
\<close>

theorem identify_song_never_raises:
  "fst (identify_song env org clip_path retries w) =
     Inr (case tmp_read (tmp w) clip_path of
            Inl e \<Rightarrow> None
          | Inr data \<Rightarrow> first_decisive (map (outcome env org w data) [0..<nat retries]))
   \<and> decided (Response code body) = (if code = 200 then payload_of body else None)
   \<and> decided TimedOut = None
   \<and> decided TransportFailure = None"
proof -
  have "fst (identify_song env org clip_path retries w) =
     Inr (case tmp_read (tmp w) clip_path of
            Inl e \<Rightarrow> None
          | Inr data \<Rightarrow> first_decisive (map (outcome env org w data) [0..<nat retries]))"
  proof (cases "tmp_read (tmp w) clip_path")
    case (Inl e)
    then show ?thesis by (simp add: identify_song_unreadable)
  next
    case (Inr data)
    then show ?thesis by (simp add: identify_song_outcomes)
  qed
  then show ?thesis by (simp add: decided_def)
qed

text \<open>
  Claim C4. With a readable clip: when attempt \<open>j\<close> (counted from 0, below \<open>retries\<close>) is the
  first whose outcome is neither the rate-limited status nor a timeout, exactly \<open>j + 1\<close>
  requests are sent, the sleeps are \<open>2^0, ..., 2^(j-1)\<close> seconds and the call returns what
  outcome \<open>j\<close> decides, so nothing but status 901 and a timeout is ever retried. When all
  \<open>retries\<close> attempts are retried the call returns null after \<open>retries\<close> requests. A
  rate-limited first attempt followed by a successful second one returns the second result
  after one sleep of 1 second. Never more than \<open>retries\<close> requests are sent, and the default
  is 3.
\<close>

theorem identify_song_retry_policy:
  assumes "tmp_read (tmp w) clip_path = Inr data"
  shows "(\<forall>j. j < nat retries \<and> (\<forall>i<j. retryable (outcome env org w data i))
             \<and> \<not> retryable (outcome env org w data j) \<longrightarrow>
            identify_song env org clip_path retries w =
              (Inr (decided (outcome env org w data j)),
               w\<lparr>requests := requests w + j + 1,
                 sleeps := sleeps w @ map (\<lambda>i. 2 ^ i) [0..<j]\<rparr>))
       \<and> ((\<forall>i<nat retries. retryable (outcome env org w data i)) \<longrightarrow>
            identify_song env org clip_path retries w =
              (Inr None,
               w\<lparr>requests := requests w + nat retries,
                 sleeps := sleeps w @ concat (map (\<lambda>i. backoff retries i (outcome env org w data i))
                                                [0..<nat retries])\<rparr>))
       \<and> (\<forall>b0 body r. 2 \<le> retries \<and> outcome env org w data 0 = Response 901 b0
             \<and> outcome env org w data 1 = Response 200 body \<and> payload_of body = Some r \<longrightarrow>
            identify_song env org clip_path retries w =
              (Inr (Some r), w\<lparr>requests := requests w + 2, sleeps := sleeps w @ [1]\<rparr>))
       \<and> requests (snd (identify_song env org clip_path retries w)) \<le> requests w + nat retries
       \<and> retryable (Response code any_body) = (code = 901)
       \<and> retryable TimedOut
       \<and> \<not> retryable TransportFailure
       \<and> default_retries = 3"
proof -
  have A: "\<forall>j. j < nat retries \<and> (\<forall>i<j. retryable (outcome env org w data i))
             \<and> \<not> retryable (outcome env org w data j) \<longrightarrow>
            identify_song env org clip_path retries w =
              (Inr (decided (outcome env org w data j)),
               w\<lparr>requests := requests w + j + 1,
                 sleeps := sleeps w @ map (\<lambda>i. 2 ^ i) [0..<j]\<rparr>)"
    using identify_song_decisive [OF assms] by blast
  have B: "(\<forall>i<nat retries. retryable (outcome env org w data i)) \<longrightarrow>
            identify_song env org clip_path retries w =
              (Inr None,
               w\<lparr>requests := requests w + nat retries,
                 sleeps := sleeps w @ concat (map (\<lambda>i. backoff retries i (outcome env org w data i))
                                                [0..<nat retries])\<rparr>)"
    using identify_song_exhausted [OF assms] by blast
  have C: "\<forall>b0 body r. 2 \<le> retries \<and> outcome env org w data 0 = Response 901 b0
             \<and> outcome env org w data 1 = Response 200 body \<and> payload_of body = Some r \<longrightarrow>
            identify_song env org clip_path retries w =
              (Inr (Some r), w\<lparr>requests := requests w + 2, sleeps := sleeps w @ [1]\<rparr>)"
  proof (intro allI impI, elim conjE)
    fix b0 body r
    assume r2: "2 \<le> retries" and o0: "outcome env org w data 0 = Response 901 b0"
      and o1: "outcome env org w data 1 = Response 200 body" and p: "payload_of body = Some r"
    from r2 have j: "1 < nat retries" by simp
    from o0 have pre: "\<forall>i<1. retryable (outcome env org w data i)" by (simp add: retryable_def)
    from o1 have dec: "\<not> retryable (outcome env org w data 1)" by (simp add: retryable_def)
    from identify_song_decisive [OF assms j pre dec] o1 p
    show "identify_song env org clip_path retries w =
              (Inr (Some r), w\<lparr>requests := requests w + 2, sleeps := sleeps w @ [1]\<rparr>)"
      by (simp add: decided_def)
  qed
  have D: "requests (snd (identify_song env org clip_path retries w)) \<le> requests w + nat retries"
    using identify_song_outcomes [OF assms, of env org retries]
      requests_sent_le [of "map (outcome env org w data) [0..<nat retries]"]
    by simp
  from A B C D show ?thesis
    by (simp add: retryable_def default_retries_def)
qed

lemma example_outcome_0: "outcome example_env example_organizer example_clip_world ''clip'' 0 = Response 901 None"
  by (simp add: outcome_def example_env_def example_clip_world_def example_world_def)

lemma example_outcome_1:
  "outcome example_env example_organizer example_clip_world ''clip'' 1 =
     Response 200 (Some (JDict [(''status'', JStr ''success''), (''result'', example_song)]))"
  by (simp add: outcome_def example_env_def example_clip_world_def example_world_def)

lemma example_clip_readable: "tmp_read (tmp example_clip_world) 1 = Inr ''clip''"
  by (simp add: tmp_read_def example_clip_world_def)

theorem identify_song_retry_policy_witness:
  "identify_song example_env example_organizer 1 3 example_clip_world =
     (Inr (Some example_song),
      example_clip_world\<lparr>requests := requests example_clip_world + 2,
                         sleeps := sleeps example_clip_world @ [1]\<rparr>)
   \<and> identify_song example_env example_organizer 1 1 example_clip_world =
     (Inr None,
      example_clip_world\<lparr>requests := requests example_clip_world + 1,
                         sleeps := sleeps example_clip_world @ [1]\<rparr>)"
proof -
  have p: "payload_of (Some (JDict [(''status'', JStr ''success''), (''result'', example_song)]))
             = Some example_song"
    by (simp add: payload_of_def example_song_def)
  have r0: "retryable (outcome example_env example_organizer example_clip_world ''clip'' 0)"
    by (simp add: example_outcome_0 retryable_def)
  have bo: "backoff 1 0 (Response 901 None) = [1]" by (simp add: backoff_def)
  note pol3 = identify_song_retry_policy [OF example_clip_readable, of 3 example_env example_organizer,
      THEN conjunct2, THEN conjunct2, THEN conjunct1]
  note pol1 = identify_song_retry_policy [OF example_clip_readable, of 1 example_env example_organizer,
      THEN conjunct2, THEN conjunct1]
  from pol3 example_outcome_0 example_outcome_1 p
  have one: "identify_song example_env example_organizer 1 3 example_clip_world =
     (Inr (Some example_song),
      example_clip_world\<lparr>requests := requests example_clip_world + 2,
                         sleeps := sleeps example_clip_world @ [1]\<rparr>)"
    by simp
  from pol1 r0 have two: "identify_song example_env example_organizer 1 1 example_clip_world =
     (Inr None,
      example_clip_world\<lparr>requests := requests example_clip_world + 1,
                         sleeps := sleeps example_clip_world @ [1]\<rparr>)"
    by (simp add: example_outcome_0 bo)
  from one two show ?thesis by simp
qed

subsection \<open>Target path\<close>





















subsection \<open>The example run, step by step\<close>

lemmas string_defs = sanitize_filename_def invalid_chars_def str_replace_def str_strip_chars_def
  str_strip_def is_space_def path_suffix_def path_name_def str_rfind_def

lemma example_audio_files:
  "get_audio_files example_start example_listing =
     [[''in'', ''a.mp3''], [''in'', ''b.mp3''], [''in'', ''c.MP3'']]"
  by (simp add: get_audio_files_def example_listing_def example_start_def example_world_def
      is_file_def string_defs str_lower_def lower_char_def supported_formats_def)

lemma example_identify_first:
  assumes "tmp_read (tmp w) cp = Inr data" and "requests w = 0"
  shows "identify_song example_env org cp 3 w =
           (Inr (Some example_song), w\<lparr>requests := 2, sleeps := sleeps w @ [1]\<rparr>)"
proof -
  have j: "1 < nat 3" by simp
  from assms(2) have pre: "\<forall>i<1. retryable (outcome example_env org w data i)"
    by (simp add: outcome_def example_env_def retryable_def)
  from assms(2) have o1: "outcome example_env org w data 1 =
      Response 200 (Some (JDict [(''status'', JStr ''success''), (''result'', example_song)]))"
    by (simp add: outcome_def example_env_def)
  then have dec: "\<not> retryable (outcome example_env org w data 1)" by (simp add: retryable_def)
  from identify_song_decisive [OF assms(1) j pre dec] o1 assms(2) show ?thesis
    by (simp add: decided_def payload_of_def example_song_def)
qed

lemma example_identify_later:
  assumes "tmp_read (tmp w) cp = Inr data" and "2 \<le> requests w"
  shows "identify_song example_env org cp 3 w = (Inr None, w\<lparr>requests := requests w + 1\<rparr>)"
proof -
  have j: "0 < nat 3" by simp
  from assms(2) have o: "outcome example_env org w data 0 =
      Response 200 (Some (JDict [(''status'', JStr ''success''), (''result'', JNull)]))"
    by (simp add: outcome_def example_env_def)
  then have dec: "\<not> retryable (outcome example_env org w data 0)" by (simp add: retryable_def)
  from identify_song_decisive [OF assms(1) j _ dec] o show ?thesis
    by (simp add: decided_def payload_of_def)
qed

lemma example_env_sel:
  "md5_hexdigest example_env = (\<lambda>b. b)"
  "from_file example_env = (\<lambda>p b. if b = ''bad'' then None
                          else if b = ''short'' then Some 5000 else Some 100000)"
  "export_mp3 example_env = (\<lambda>p b c. if b = ''noexport'' then None else Some ''clip'')"
  "random_source example_env = (\<lambda>n. 7)"
  "json_dump example_env = (\<lambda>r. ''manifest'')"
  by (simp_all add: example_env_def)

lemmas example_run_defs = example_env_sel example_world_def example_organizer_def example_song_def
  example_start_def

lemmas run_defs = process_file_def process_file_try_def validate_audio_file_def read_file_def
  get_file_hash_def create_random_clip_def pick_clip_def randint_def tmp_fresh_def tmp_write_def
  tmp_read_def default_retries_def
  create_folder_structure_def resolve_album_def apple_music_album_def spotify_album_def
  album_is_used_def py_sanitize_def mkdir_parents_def move_file_def move_file_try_def
  path_exists_def os_remove_def getsize_def shutil_move_def is_dir_def relative_to_def
  finally_unlink_def tmp_unlink_def loop_body_def time_sleep_def

lemma example_step_a:
  "loop_body example_env 1 3 1 [''in'', ''a.mp3''] (example_organizer, example_start, initial_stats 3)
     = (example_org_a, example_world_a, example_stats 1 0)"
  by (simp add: run_defs example_identify_first example_run_defs string_defs initial_stats_def
      times_0_15_example times_0_85_example Let_def example_org_a_def example_world_a_def
      example_stats_def)

lemma example_step_b:
  "loop_body example_env 1 3 2 [''in'', ''b.mp3''] (example_org_a, example_world_a, example_stats 1 0)
     = (example_org_a, example_world_b, example_stats 2 0)"
  by (simp add: run_defs example_run_defs example_org_a_def example_world_a_def
      example_world_b_def example_stats_def)

lemma example_step_c:
  "loop_body example_env 1 3 3 [''in'', ''c.MP3''] (example_org_a, example_world_b, example_stats 2 0)
     = (example_org_c, example_world_c, example_stats 2 1)"
  by (simp add: run_defs example_identify_later example_run_defs string_defs
      times_0_15_example times_0_85_example Let_def example_org_a_def example_world_a_def
      example_world_b_def example_org_c_def example_world_c_def example_stats_def)

lemma example_loop:
  "process_loop example_env 1 3 1 [[''in'', ''a.mp3''], [''in'', ''b.mp3''], [''in'', ''c.MP3'']]
     (example_organizer, example_start, initial_stats 3)
   = (example_org_c, example_world_c, example_stats 2 1)"
proof -
  have idx: "Suc 1 = 2" "Suc 2 = 3" by simp_all
  show ?thesis
    by (simp only: process_loop.simps idx example_step_a example_step_b example_step_c)
qed

lemma example_save:
  "save_results example_env example_org_c example_world_c (example_stats 2 1) =
     Inr (example_world_c\<lparr>files := (files example_world_c)
         ([''out'', ''organization_results.json''] \<mapsto> File ''manifest'')\<rparr>)"
  by (simp add: save_results_def is_dir_def
      example_env_sel example_org_c_def example_org_a_def example_organizer_def
      example_world_c_def example_world_b_def example_world_a_def example_start_def
      example_world_def)

lemma example_run:
  "organize_library example_env example_organizer example_start example_listing 1 =
     (Inr (example_stats 2 1), example_org_c,
      example_world_c\<lparr>files := (files example_world_c)
         ([''out'', ''organization_results.json''] \<mapsto> File ''manifest'')\<rparr>)"
proof -
  have len: "length [[''in'', ''a.mp3''], [''in'', ''b.mp3''], [''in'', ''c.MP3'']] = 3"
    by simp
  show ?thesis
    unfolding organize_library_def example_audio_files Let_def len example_loop
    by (simp only: prod.case example_save sum.case)
qed

subsection \<open>Run statistics\<close>

lemma loop_body_stats:
  assumes "loop_body env delay n i p (org, w, st) = (org', w', st')"
  shows "total st' = total st \<and> skipped st' = skipped st \<and> duplicates st' = duplicates st
       \<and> (success st', failed st') =
           (if fst (process_file env org w p) = Inr True then (success st + 1, failed st)
            else (success st, failed st + 1))"
  using assms
  by (auto simp: loop_body_def Let_def split: prod.splits sum.splits bool.splits)

lemma process_loop_stats:
  assumes "process_loop env delay n i ps (org, w, st) = (org', w', st')"
  shows "total st' = total st \<and> skipped st' = skipped st \<and> duplicates st' = duplicates st
       \<and> success st' + failed st' = success st + failed st + length ps"
  using assms
proof (induction ps arbitrary: i org w st)
  case Nil
  then show ?case by simp
next
  case (Cons p ps)
  obtain org1 w1 st1 where b: "loop_body env delay n i p (org, w, st) = (org1, w1, st1)"
    by (cases "loop_body env delay n i p (org, w, st)") auto
  with Cons.prems have "process_loop env delay n (Suc i) ps (org1, w1, st1) = (org', w', st')"
    by simp
  from Cons.IH [OF this] loop_body_stats [OF b] show ?case
    by (auto split: if_splits)
qed

lemma process_loop_append:
  "process_loop env delay n i (ps @ qs) s =
     process_loop env delay n (i + length ps) qs (process_loop env delay n i ps s)"
  by (induction ps arbitrary: i s) simp_all

lemma organize_library_stats:
  assumes "organize_library env org w listing delay = (Inr st, org', w')"
  shows "total st = length (get_audio_files w listing)
       \<and> success st + failed st = total st \<and> skipped st = 0 \<and> duplicates st = 0
       \<and> files w' (output_folder org' @ [''organization_results.json'']) =
            Some (File (json_dump env (results_of org' st)))"
proof -
  let ?fs = "get_audio_files w listing"
  obtain org1 w1 st1 where l: "process_loop env delay (length ?fs) 1 ?fs
      (org, w, initial_stats (length ?fs)) = (org1, w1, st1)"
    by (cases "process_loop env delay (length ?fs) 1 ?fs (org, w, initial_stats (length ?fs))") auto
  from assms l have eq: "st = st1" "org' = org1"
    and sv: "save_results env org1 w1 st1 = Inr w'"
    by (auto simp: organize_library_def Let_def split: sum.splits)
  from sv have "files w' (output_folder org1 @ [''organization_results.json'']) =
            Some (File (json_dump env (results_of org1 st1)))"
    by (auto simp: save_results_def Let_def split: if_splits)
  with process_loop_stats [OF l] eq show ?thesis
    by (simp add: initial_stats_def)
qed

text \<open>
  Claim C5. With \<open>total\<close> the number of discovered audio files: after the first \<open>k\<close> files
  of a run, \<open>success + failed\<close> is \<open>k\<close> (at most \<open>total\<close>), and the rest of the run goes on
  from that state; one pass of the loop leaves \<open>total\<close> alone and adds one to exactly one
  of \<open>success\<close> and \<open>failed\<close>, to \<open>success\<close> when processing returned true and to \<open>failed\<close>
  when it returned false or let an exception escape; and when the run completes,
  \<open>success + failed = total\<close>.
\<close>

theorem stats_invariant:
  "(case process_loop env delay (length (get_audio_files w listing)) 1
           (take k (get_audio_files w listing))
           (org, w, initial_stats (length (get_audio_files w listing))) of
      (org1, w1, st1) \<Rightarrow>
        success st1 + failed st1 = min k (length (get_audio_files w listing))
        \<and> success st1 + failed st1 \<le> total st1
        \<and> total st1 = length (get_audio_files w listing)
        \<and> process_loop env delay (length (get_audio_files w listing)) 1
             (get_audio_files w listing)
             (org, w, initial_stats (length (get_audio_files w listing))) =
           process_loop env delay (length (get_audio_files w listing))
             (1 + min k (length (get_audio_files w listing)))
             (drop k (get_audio_files w listing)) (org1, w1, st1))
   \<and> (case loop_body env delay n i p (org2, w2, st2) of
        (org3, w3, st3) \<Rightarrow>
          total st3 = total st2
          \<and> (success st3, failed st3) =
              (if fst (process_file env org2 w2 p) = Inr True
               then (success st2 + 1, failed st2) else (success st2, failed st2 + 1)))
   \<and> (organize_library env org w listing delay = (Inr st, org', w') \<longrightarrow>
        success st + failed st = total st \<and> total st = length (get_audio_files w listing))"
proof -
  let ?fs = "get_audio_files w listing"
  let ?n = "length ?fs"
  obtain org1 w1 st1 where l: "process_loop env delay ?n 1 (take k ?fs)
      (org, w, initial_stats ?n) = (org1, w1, st1)"
    by (cases "process_loop env delay ?n 1 (take k ?fs) (org, w, initial_stats ?n)") auto
  have app: "process_loop env delay ?n 1 ?fs (org, w, initial_stats ?n) =
      process_loop env delay ?n (1 + min k ?n) (drop k ?fs) (org1, w1, st1)"
    using process_loop_append [of env delay ?n 1 "take k ?fs" "drop k ?fs" "(org, w, initial_stats ?n)"] l
    by (simp add: min.commute)
  from process_loop_stats [OF l] have
    "success st1 + failed st1 = min k ?n \<and> success st1 + failed st1 \<le> total st1 \<and> total st1 = ?n"
    by (simp add: initial_stats_def min.commute)
  with l app have A: "(case process_loop env delay ?n 1 (take k ?fs) (org, w, initial_stats ?n) of
      (org1, w1, st1) \<Rightarrow>
        success st1 + failed st1 = min k ?n
        \<and> success st1 + failed st1 \<le> total st1
        \<and> total st1 = ?n
        \<and> process_loop env delay ?n 1 ?fs (org, w, initial_stats ?n) =
           process_loop env delay ?n (1 + min k ?n) (drop k ?fs) (org1, w1, st1))"
    by simp
  obtain org3 w3 st3 where b: "loop_body env delay n i p (org2, w2, st2) = (org3, w3, st3)"
    by (cases "loop_body env delay n i p (org2, w2, st2)") auto
  from loop_body_stats [OF b] b have B: "(case loop_body env delay n i p (org2, w2, st2) of
        (org3, w3, st3) \<Rightarrow>
          total st3 = total st2
          \<and> (success st3, failed st3) =
              (if fst (process_file env org2 w2 p) = Inr True
               then (success st2 + 1, failed st2) else (success st2, failed st2 + 1)))"
    by simp
  have C: "organize_library env org w listing delay = (Inr st, org', w') \<longrightarrow>
        success st + failed st = total st \<and> total st = ?n"
    using organize_library_stats by blast
  from A B C show ?thesis by blast
qed

theorem stats_invariant_witness:
  "organize_library example_env example_organizer example_start example_listing 1 =
     (Inr (example_stats 2 1), example_org_c,
      example_world_c\<lparr>files := (files example_world_c)
         ([''out'', ''organization_results.json''] \<mapsto> File ''manifest'')\<rparr>)
   \<and> success (example_stats 2 1) + failed (example_stats 2 1) = total (example_stats 2 1)
   \<and> total (example_stats 2 1) = length (get_audio_files example_start example_listing)
   \<and> total (example_stats 2 1) = 3"
  using stats_invariant [where env = example_env and delay = 1 and w = example_start
      and listing = example_listing and org = example_organizer and st = "example_stats 2 1"
      and org' = example_org_c
      and w' = "example_world_c\<lparr>files := (files example_world_c)
         ([''out'', ''organization_results.json''] \<mapsto> File ''manifest'')\<rparr>",
      THEN conjunct2, THEN conjunct2]
    example_run
  by (simp add: example_stats_def)

text \<open>
  Claim C10. The counters \<open>skipped\<close> and \<open>duplicates\<close> are 0 after any part of the loop, no
  pass of the loop changes them, and when the run completes they are 0 in the returned
  statistics and in the manifest that was written, whatever was detected and removed as a
  duplicate.
\<close>

theorem skipped_duplicates_stay_zero:
  "(case process_loop env delay n i ps (org, w, initial_stats m) of
      (org1, w1, st1) \<Rightarrow> skipped st1 = 0 \<and> duplicates st1 = 0)
   \<and> (case loop_body env delay n i p (org2, w2, st2) of
        (org3, w3, st3) \<Rightarrow> skipped st3 = skipped st2 \<and> duplicates st3 = duplicates st2)
   \<and> (organize_library env org w listing delay = (Inr st, org', w') \<longrightarrow>
        skipped st = 0 \<and> duplicates st = 0
        \<and> files w' (output_folder org' @ [''organization_results.json'']) =
             Some (File (json_dump env (results_of org' st)))
        \<and> skipped (results_stats (results_of org' st)) = 0
        \<and> duplicates (results_stats (results_of org' st)) = 0)"
proof -
  obtain org1 w1 st1 where l: "process_loop env delay n i ps (org, w, initial_stats m) = (org1, w1, st1)"
    by (cases "process_loop env delay n i ps (org, w, initial_stats m)") auto
  from process_loop_stats [OF l] l have A: "(case process_loop env delay n i ps (org, w, initial_stats m) of
      (org1, w1, st1) \<Rightarrow> skipped st1 = 0 \<and> duplicates st1 = 0)"
    by (simp add: initial_stats_def)
  obtain org3 w3 st3 where b: "loop_body env delay n i p (org2, w2, st2) = (org3, w3, st3)"
    by (cases "loop_body env delay n i p (org2, w2, st2)") auto
  from loop_body_stats [OF b] b have B: "(case loop_body env delay n i p (org2, w2, st2) of
        (org3, w3, st3) \<Rightarrow> skipped st3 = skipped st2 \<and> duplicates st3 = duplicates st2)"
    by simp
  have C: "organize_library env org w listing delay = (Inr st, org', w') \<longrightarrow>
        skipped st = 0 \<and> duplicates st = 0
        \<and> files w' (output_folder org' @ [''organization_results.json'']) =
             Some (File (json_dump env (results_of org' st)))
        \<and> skipped (results_stats (results_of org' st)) = 0
        \<and> duplicates (results_stats (results_of org' st)) = 0"
    using organize_library_stats [of env org w listing delay st org' w']
    by (auto simp: results_of_def)
  from A B C show ?thesis by blast
qed

theorem skipped_duplicates_stay_zero_witness:
  "fst (organize_library example_env example_organizer example_start example_listing 1) =
     Inr (example_stats 2 1)
   \<and> files example_start [''in'', ''b.mp3''] = Some (File ''AAAA'')
   \<and> files example_world_c [''in'', ''b.mp3''] = None
   \<and> skipped (example_stats 2 1) = 0
   \<and> duplicates (example_stats 2 1) = 0
   \<and> duplicates (results_stats (results_of example_org_c (example_stats 2 1))) = 0"
  using skipped_duplicates_stay_zero [where env = example_env and delay = 1 and w = example_start
      and listing = example_listing and org = example_organizer and st = "example_stats 2 1"
      and org' = example_org_c
      and w' = "example_world_c\<lparr>files := (files example_world_c)
         ([''out'', ''organization_results.json''] \<mapsto> File ''manifest'')\<rparr>",
      THEN conjunct2, THEN conjunct2]
    example_run
  by (simp add: example_stats_def example_world_c_def example_world_b_def example_world_a_def
      example_start_def example_world_def)

subsection \<open>What one file's processing leaves alone\<close>

lemma identify_song_frame:
  assumes "identify_song env org clip_path retries w = (r, w')"
  shows "tmp w' = tmp w \<and> files w' = files w \<and> draws w' = draws w"
proof (cases "tmp_read (tmp w) clip_path")
  case (Inl e)
  with assms show ?thesis by (simp add: identify_song_unreadable)
next
  case (Inr data)
  with assms show ?thesis by (auto simp: identify_song_outcomes)
qed

lemma mkdir_parents_frame:
  assumes "mkdir_parents w p = Inr w'"
  shows "tmp w' = tmp w \<and> sleeps w' = sleeps w \<and> requests w' = requests w \<and> draws w' = draws w"
  using assms by (auto simp: mkdir_parents_def split: sum.splits)

lemma create_folder_structure_frame:
  assumes "create_folder_structure org w si original_file = (r, w')"
  shows "tmp w' = tmp w"
proof (cases "\<exists>p. r = Inr p \<and> \<not> dry_run org")
  case False
  with assms show ?thesis
    by (auto simp: create_folder_structure_def Let_def split: sum.splits if_splits)
next
  case True
  with assms obtain folder where "mkdir_parents w folder = Inr w'"
    by (auto simp: create_folder_structure_def Let_def split: sum.splits if_splits)
  then show ?thesis using mkdir_parents_frame by blast
qed

lemma os_remove_frame: "os_remove w p = Inr w' \<Longrightarrow> tmp w' = tmp w"
  by (auto simp: os_remove_def split: option.splits node.splits)

lemma shutil_move_frame: "shutil_move w p q = Inr w' \<Longrightarrow> tmp w' = tmp w"
  by (auto simp: shutil_move_def Let_def split: option.splits node.splits if_splits)

lemma move_file_try_frame:
  assumes "move_file_try env org w source target = (r, w')"
  shows "tmp w' = tmp w"
  using assms
  by (auto simp: move_file_try_def split: sum.splits if_splits
      dest!: os_remove_frame shutil_move_frame)

lemma move_file_frame:
  assumes "move_file env org w source target = (r, w')"
  shows "tmp w' = tmp w"
  using assms
  by (auto simp: move_file_def split: sum.splits if_splits prod.splits dest: move_file_try_frame)


lemma process_file_try_frame:
  assumes "process_file_try env org w file_path clip_path = (r, org', w')"
  shows "tmp w' = tmp w \<and> file_hashes org' = file_hashes org \<and> dry_run org' = dry_run org
       \<and> output_folder org' = output_folder org"
proof -
  obtain r1 w1 where i: "identify_song env org clip_path default_retries w = (r1, w1)"
    by (cases "identify_song env org clip_path default_retries w") auto
  from identify_song_frame [OF i] have t1: "tmp w1 = tmp w" by simp
  show ?thesis
  proof (cases "\<exists>si. r1 = Inr (Some si) \<and> truthy si")
    case False
    with assms i t1 show ?thesis
      by (auto simp: process_file_try_def split: sum.splits option.splits if_splits)
  next
    case True
    then obtain si where si: "r1 = Inr (Some si)" "truthy si" by blast
    obtain r2 w2 where c: "create_folder_structure org w1 si file_path = (r2, w2)"
      by (cases "create_folder_structure org w1 si file_path") auto
    from create_folder_structure_frame [OF c] t1 have t2: "tmp w2 = tmp w" by simp
    show ?thesis
    proof (cases r2)
      case (Inl e)
      with assms i si c t2 show ?thesis by (simp add: process_file_try_def)
    next
      case (Inr target)
      obtain r3 w3 where m: "move_file env org w2 file_path target = (r3, w3)"
        by (cases "move_file env org w2 file_path target") auto
      from move_file_frame [OF m] t2 have t3: "tmp w3 = tmp w" by simp
      from assms i si c Inr m t3 show ?thesis
        by (auto simp: process_file_try_def split: sum.splits bool.splits)
    qed
  qed
qed

lemma tmp_fresh_bound: "k \<in> fst ` set t \<Longrightarrow> k < tmp_fresh t"
proof -
  have "\<And>a. k \<in> fst ` set t \<Longrightarrow> k \<le> fold max (map fst t) a"
  proof (induction t)
    case Nil
    then show ?case by simp
  next
    case (Cons x t)
    have mono: "\<And>a b. a \<le> b \<Longrightarrow> fold max (map fst t) a \<le> fold max (map fst t) b"
    proof (induction t)
      case Nil
      then show ?case by simp
    next
      case (Cons y t)
      then show ?case by simp
    qed
    have ge: "\<And>a. a \<le> fold max (map fst t) a"
    proof (induction t)
      case Nil
      then show ?case by simp
    next
      case (Cons y t)
      show ?case using Cons [of "max (fst y) a"] by simp
    qed
    show ?case
    proof (cases "k = fst x")
      case True
      then show ?thesis using ge [of "max (fst x) a"] by simp
    next
      case False
      with Cons.prems have "k \<in> fst ` set t" by auto
      from Cons.IH [OF this] show ?thesis by simp
    qed
  qed
  then show "k \<in> fst ` set t \<Longrightarrow> k < tmp_fresh t"
    by (simp add: tmp_fresh_def less_Suc_eq_le)
qed

lemma filter_fresh: "filter (\<lambda>kv. fst kv \<noteq> tmp_fresh t) t = t"
proof -
  have "\<forall>kv\<in>set t. fst kv \<noteq> tmp_fresh t"
    using tmp_fresh_bound [of _ t] by fastforce
  then show ?thesis by simp
qed

lemma create_random_clip_result:
  assumes "create_random_clip env w audio_path duration = (r, w')"
  shows "files w' = files w
       \<and> (case r of
             None \<Rightarrow> tmp w' = tmp w \<or> tmp w' = (tmp_fresh (tmp w), []) # tmp w
           | Some clip_path \<Rightarrow>
               clip_path = tmp_fresh (tmp w)
               \<and> (\<exists>data. tmp w' = (clip_path, data) # tmp w))"
proof -
  have pick: "\<And>n c w1. pick_clip env w n duration = (c, w1) \<Longrightarrow> tmp w1 = tmp w \<and> files w1 = files w"
    by (auto simp: pick_clip_def randint_def Let_def split: if_splits sum.splits prod.splits)
  show ?thesis
    using assms
    by (auto simp: create_random_clip_def Let_def tmp_write_def filter_fresh
        split: sum.splits option.splits prod.splits dest!: pick)
qed

lemma finally_unlink_fresh:
  assumes "tmp w2 = (tmp_fresh t, data) # t"
  shows "tmp (finally_unlink (tmp_fresh t) w2) = t"
  using assms by (simp add: finally_unlink_def tmp_unlink_def filter_fresh)

lemma process_file_tmp:
  assumes "process_file env org w file_path = (r, org', w')"
  shows "tmp w' = tmp w
       \<or> (tmp w' = (tmp_fresh (tmp w), []) # tmp w
           \<and> r = Inr False
           \<and> fst (create_random_clip env w file_path (clip_duration org)) = None)"
proof (cases "validate_audio_file env w file_path")
  case False
  with assms show ?thesis by (simp add: process_file_def)
next
  case True
  show ?thesis
  proof (cases "get_file_hash env w file_path")
    case (Inl e)
    with assms True show ?thesis by (simp add: process_file_def)
  next
    case (Inr file_hash)
    show ?thesis
    proof (cases "file_hash \<in> dom (file_hashes org)")
      case dup: True
      with assms True Inr show ?thesis
        by (auto simp: process_file_def split: sum.splits if_splits dest: os_remove_frame)
    next
      case new: False
      let ?org1 = "org\<lparr>file_hashes := (file_hashes org)(file_hash \<mapsto> file_path)\<rparr>"
      obtain c w1 where cl: "create_random_clip env w file_path (clip_duration org) = (c, w1)"
        by (cases "create_random_clip env w file_path (clip_duration org)") auto
      show ?thesis
      proof (cases c)
        case None
        with assms True Inr new cl create_random_clip_result [OF cl] show ?thesis
          by (auto simp: process_file_def Let_def)
      next
        case (Some clip_path)
        from create_random_clip_result [OF cl] Some obtain data where
          k: "clip_path = tmp_fresh (tmp w)" and t1: "tmp w1 = (clip_path, data) # tmp w"
          by auto
        obtain r2 org2 w2 where tr: "process_file_try env ?org1 w1 file_path clip_path = (r2, org2, w2)"
          by (cases "process_file_try env ?org1 w1 file_path clip_path") auto
        from process_file_try_frame [OF tr] t1 k have "tmp w2 = (tmp_fresh (tmp w), data) # tmp w"
          by simp
        then have "tmp (finally_unlink (tmp_fresh (tmp w)) w2) = tmp w"
          by (rule finally_unlink_fresh)
        with assms True Inr new cl Some tr k show ?thesis
          by (auto simp: process_file_def Let_def)
      qed
    qed
  qed
qed

subsection \<open>Duplicates within a run\<close>







subsection \<open>The first of several identical files\<close>













subsection \<open>Moving onto an existing target\<close>

lemma move_file_existing_target:
  assumes "\<not> dry_run org" and "source \<noteq> target"
    and "files w source = Some (File sb)" and "files w target = Some (File tb)"
    and "is_dir w (butlast target)"
  shows "move_file env org w source target =
     (Inr True,
      if md5_hexdigest env sb = md5_hexdigest env tb then
        w\<lparr>files := (files w)(source := None)\<rparr>
      else if length sb > length tb then
        w\<lparr>files := (files w)(source := None, target \<mapsto> File sb)\<rparr>
      else w\<lparr>files := (files w)(source := None)\<rparr>)"
proof -
  let ?w1 = "w\<lparr>files := (files w)(target := None)\<rparr>"
  have dir1: "is_dir ?w1 (butlast target)"
  proof (cases "butlast target = []")
    case True
    then show ?thesis by (simp add: is_dir_def)
  next
    case False
    then have "target \<noteq> []" by auto
    then have "butlast target @ [last target] = target" by simp
    then have "butlast target \<noteq> target" by (metis append_self_conv list.distinct(1))
    with assms(5) False show ?thesis by (simp add: is_dir_def)
  qed
  have mv: "shutil_move ?w1 source target =
      Inr (w\<lparr>files := (files w)(source := None, target \<mapsto> File sb)\<rparr>)"
    using assms(2,3) dir1
    by (auto simp: shutil_move_def fun_upd_twist)
  from assms mv show ?thesis
    by (simp add: move_file_def move_file_try_def path_exists_def get_file_hash_def read_file_def
        os_remove_def getsize_def)
qed

subsection \<open>Duplicates, clips and moves on the examples\<close>






lemma example_process_a:
  "process_file example_env example_organizer example_start [''in'', ''a.mp3'']
     = (Inr True, example_org_a, example_world_a\<lparr>sleeps := [1]\<rparr>)"
  by (simp add: run_defs example_identify_first example_run_defs string_defs
      times_0_15_example times_0_85_example Let_def example_org_a_def example_world_a_def)




text \<open>
  Claim C2 at a failing input. The file \<open>d.mp3\<close> decodes, but the export of its clip raises
  after the temporary file was created. Processing returns failure, and the temporary
  directory, empty before, still holds the temporary file afterwards. By
  \<open>process_file_tmp\<close> this is the only way a temporary file outlives the call.
\<close>

theorem process_file_clip_leak:
  "tmp example_noexport_world = []
   \<and> process_file example_env example_organizer example_noexport_world [''in'', ''d.mp3''] =
     (Inr False,
      example_organizer\<lparr>file_hashes := [''noexport'' \<mapsto> [''in'', ''d.mp3'']],
                        failed_files := [[''in'', ''d.mp3'']]\<rparr>,
      example_noexport_world\<lparr>tmp := [(1, [])], draws := 1\<rparr>)"
  by (simp add: run_defs example_env_sel example_noexport_world_def example_organizer_def
      times_0_15_example times_0_85_example Let_def)

text \<open>
  Claim C6 at a failing input. In a library organized in place, a file already lies at its
  target path. The target exists and the digests are equal, so the move removes the source,
  which is the target: the only copy is deleted and the move reports success. Processing
  that file does the same and records it in the manifest as organized. For a source other
  than the target, \<open>move_file_existing_target\<close> gives the three branches of the claim.
\<close>

theorem move_file_same_path_deletes:
  "files example_organized_world [''out'', ''AC_DC'', ''Black'', ''Back.mp3''] = Some (File ''AAAA'')
   \<and> move_file example_env (example_organizer\<lparr>input_folder := [''out'']\<rparr>) example_organized_world
        [''out'', ''AC_DC'', ''Black'', ''Back.mp3''] [''out'', ''AC_DC'', ''Black'', ''Back.mp3''] =
     (Inr True,
      example_organized_world\<lparr>files := (files example_organized_world)
         ([''out'', ''AC_DC'', ''Black'', ''Back.mp3''] := None)\<rparr>)
   \<and> process_file example_env (example_organizer\<lparr>input_folder := [''out'']\<rparr>)
        example_organized_world [''out'', ''AC_DC'', ''Black'', ''Back.mp3''] =
     (Inr True,
      example_organizer\<lparr>input_folder := [''out''],
         file_hashes := [''AAAA'' \<mapsto> [''out'', ''AC_DC'', ''Black'', ''Back.mp3'']],
         processed_files := [\<lparr>original_path = [''out'', ''AC_DC'', ''Black'', ''Back.mp3''],
            target_path = [''out'', ''AC_DC'', ''Black'', ''Back.mp3''],
            entry_artist = JStr ''AC/DC'', entry_title = JStr ''Back (Live) [Remix]'',
            entry_album = JStr []\<rparr>]\<rparr>,
      example_organized_world\<lparr>files := (files example_organized_world)
         ([''out'', ''AC_DC'', ''Black'', ''Back.mp3''] := None),
         sleeps := [1], requests := 2, draws := 1\<rparr>)"
  by (simp add: run_defs example_identify_first example_env_sel example_song_def string_defs
      example_organized_world_def example_organizer_def
      times_0_15_example times_0_85_example Let_def)

end
